theory Spec2Isabelle
  imports Main "HOL-Library.Word"
begin

unbundle bit_operations_syntax

section \<open>Header chain of lib/blockchain.py\<close>

subsection \<open>Exceptions\<close>

text \<open>
  Every exception the modelled code can raise is a value. The three \<open>BaseException\<close>
  raises of \<open>verify_header\<close> and the two of \<open>bits_to_target\<close> are told apart by their
  message; the others are Python's built-in exception classes.
\<close>

datatype exn =
    PrevHashMismatch    \<comment> \<open>BaseException("prev hash mismatch: ...")\<close>
  | EquihashInvalid     \<comment> \<open>BaseException("Equihash invalid")\<close>
  | BitsFirstPart       \<comment> \<open>BaseException("First part of bits should be in [0x03, 0x1d]")\<close>
  | BitsSecondPart      \<comment> \<open>BaseException("Second part of bits should be in [0x8000, 0x7fffff]")\<close>
  | OutOfFile           \<comment> \<open>Exception('Out of file')\<close>
  | TypeError
  | AttributeError
  | KeyError
  | IndexError
  | ValueError
  | StructError         \<comment> \<open>struct.error\<close>
  | AssertionError
  | UnboundLocalError
  | FileNotFoundError
  | RecursionError
  | Base64Error         \<comment> \<open>binascii.Error\<close>

subsection \<open>Bytes, hexadecimal text and struct\<close>

type_synonym byte = "8 word"

definition hexdigit :: "nat \<Rightarrow> char" where
  "hexdigit d = ''0123456789abcdef'' ! d"

text \<open>The value of a hexadecimal digit, in either case.\<close>

definition hexval :: "char \<Rightarrow> nat option" where
  "hexval c = map_of (zip ''0123456789abcdef'' [0..<16] @ zip ''ABCDEF'' [10..<16]) c"

text \<open>The digits of a number, most significant first, as \<open>'%x' % n\<close> prints them.\<close>

function hex_of_nat :: "nat \<Rightarrow> string" where
  "hex_of_nat n =
    (if n < 16 then [hexdigit n] else hex_of_nat (n div 16) @ [hexdigit (n mod 16)])"
  by pat_completeness auto
termination
  by (relation "measure (\<lambda>n. n)") auto

declare hex_of_nat.simps [simp del]

definition zfill :: "nat \<Rightarrow> string \<Rightarrow> string" where
  "zfill w s = replicate (w - length s) (CHR ''0'') @ s"

text \<open>
  \<open>"%064x" % target\<close>: lower-case hexadecimal, padded with zeros to 64 characters; a
  negative number prints its sign first, inside the width. A longer number is not cut.
\<close>

definition fmt_064x :: "int \<Rightarrow> string" where
  "fmt_064x t =
    (if t < 0 then CHR ''-'' # zfill 63 (hex_of_nat (nat (- t)))
     else zfill 64 (hex_of_nat (nat t)))"

fun hex_value :: "string \<Rightarrow> nat \<Rightarrow> nat option" where
  "hex_value [] acc = Some acc"
| "hex_value (c # cs) acc =
    (case hexval c of None \<Rightarrow> None | Some d \<Rightarrow> hex_value cs (16 * acc + d))"

text \<open>
  \<open>int('0x' + s, 16)\<close> for a string \<open>s\<close> of hexadecimal digits; anything else is a
  ValueError here (the only strings the code parses are slices of \<open>fmt_064x\<close>).
\<close>

definition int_0x :: "string \<Rightarrow> exn + int" where
  "int_0x s =
    (if s = [] then Inl ValueError
     else case hex_value s 0 of None \<Rightarrow> Inl ValueError | Some v \<Rightarrow> Inr (int v))"

text \<open>Little-endian integers of struct: \<open>le_bytes n v\<close> writes, \<open>le_val\<close> reads.\<close>

fun le_bytes :: "nat \<Rightarrow> int \<Rightarrow> byte list" where
  "le_bytes 0 v = []"
| "le_bytes (Suc n) v = word_of_int v # le_bytes n (v div 256)"

fun le_val :: "byte list \<Rightarrow> int" where
  "le_val [] = 0"
| "le_val (b # bs) = uint b + 256 * le_val bs"

text \<open>\<open>struct.pack("<i", v)\<close> and \<open>struct.pack("<I", v)\<close>: out of range is struct.error.\<close>

definition pack_i :: "int \<Rightarrow> exn + byte list" where
  "pack_i v = (if - (2 ^ 31) \<le> v \<and> v < 2 ^ 31 then Inr (le_bytes 4 v) else Inl StructError)"

definition pack_I :: "int \<Rightarrow> exn + byte list" where
  "pack_I v = (if 0 \<le> v \<and> v < 2 ^ 32 then Inr (le_bytes 4 v) else Inl StructError)"

text \<open>\<open>struct.unpack("<I", b)[0]\<close>: anything but four bytes is struct.error.\<close>

definition unpack_I :: "byte list \<Rightarrow> exn + int" where
  "unpack_I b = (if length b = 4 then Inr (le_val b) else Inl StructError)"

subsection \<open>File objects\<close>

text \<open>
  An open binary file is its content and the position of the next read. \<open>f.read(n)\<close>
  returns the bytes that are there (fewer than \<open>n\<close> at the end of the file, none
  beyond it) and advances by what it returned; \<open>f.seek(n, 1)\<close> only adds to the position
  and may pass the end.
\<close>

definition f_read :: "byte list \<Rightarrow> nat \<Rightarrow> nat \<Rightarrow> byte list \<times> nat" where
  "f_read content pos n =
    (let got = take n (drop pos content) in (got, pos + length got))"

text \<open>
  Modelled from the spec: the constant \<open>BASIC_HEADER_SIZE\<close> of lib/bitcoin.py, which
  is not among the sources; the fixed part of a record is "4+32+32+32+4+4+32 = 140
  bytes".
\<close>

definition BASIC_HEADER_SIZE :: nat where
  "BASIC_HEADER_SIZE = 140"

text \<open>
  Modelled from the spec: \<open>read_vector_size\<close> of lib/bitcoin.py, which is not among the
  sources. The proof blob is prefixed by "a compact variable-length size prefix (same
  encoding as the blockchain's native variable-length integer encoding)": one byte below
  253 is the size itself, 253, 254 and 255 announce a little-endian size of 2, 4 and 8
  bytes. Reading at or past the end of the file raises (struct.error on too few bytes).
  The result is the size and the position after the prefix.
\<close>

definition read_vector_size :: "byte list \<Rightarrow> nat \<Rightarrow> exn + (nat \<times> nat)" where
  "read_vector_size content pos =
    (case f_read content pos 1 of
       ([b], p1) \<Rightarrow>
         (let w = (if b = 253 then 2 else if b = 254 then 4 else if b = 255 then 8 else 0)
          in if w = 0 then Inr (unat b, p1)
             else (case f_read content p1 w of
                     (bs, p2) \<Rightarrow>
                       if length bs = w then Inr (nat (le_val bs), p2) else Inl StructError))
     | _ \<Rightarrow> Inl StructError)"

text \<open>
  Modelled from the spec: \<open>ser_char_vector\<close> of lib/bitcoin.py, the writer of the same
  prefix followed by the bytes.
\<close>

definition ser_compact_size :: "nat \<Rightarrow> byte list" where
  "ser_compact_size n =
    (if n < 253 then [of_nat n]
     else if n < 2 ^ 16 then 253 # le_bytes 2 (int n)
     else if n < 2 ^ 32 then 254 # le_bytes 4 (int n)
     else 255 # le_bytes 8 (int n))"

definition ser_char_vector :: "byte list \<Rightarrow> byte list" where
  "ser_char_vector l = ser_compact_size (length l) @ l"

text \<open>
  Modelled from the spec: \<open>deser_char_vector\<close> of lib/bitcoin.py reads the prefix and
  then that many bytes, and fails when the stream ends before the blob is complete.
\<close>

definition deser_char_vector :: "byte list \<Rightarrow> nat \<Rightarrow> exn + (byte list \<times> nat)" where
  "deser_char_vector content pos =
    (case read_vector_size content pos of
       Inl e \<Rightarrow> Inl e
     | Inr (vs, p1) \<Rightarrow>
         (case f_read content p1 vs of
            (bs, p2) \<Rightarrow> if length bs = vs then Inr (bs, p2) else Inl StructError))"

subsection \<open>Compact difficulty\<close>

definition MAX_TARGET :: int where
  "MAX_TARGET = 0x00000000FFFF0000000000000000000000000000000000000000000000000000"

definition bits_to_target :: "int \<Rightarrow> exn + int" where
  "bits_to_target bits =
    (let bitsN = (drop_bit 24 bits) AND 0xff in
     if \<not> (bitsN \<ge> 0x03 \<and> bitsN \<le> 0x1d) then Inl BitsFirstPart
     else let bitsBase = bits AND 0xffffff in
       if \<not> (bitsBase \<ge> 0x8000 \<and> bitsBase \<le> 0x7fffff) then Inl BitsSecondPart
       else Inr (push_bit (nat (8 * (bitsN - 3))) bitsBase))"

text \<open>The loop \<open>while c[:2] == '00' and len(c) > 6: c = c[2:]\<close>.\<close>

function strip00 :: "string \<Rightarrow> string" where
  "strip00 c = (if take 2 c = ''00'' \<and> length c > 6 then strip00 (drop 2 c) else c)"
  by pat_completeness auto
termination
  by (relation "measure length") auto

declare strip00.simps [simp del]

definition target_to_bits :: "int \<Rightarrow> exn + int" where
  "target_to_bits target =
    (let c = strip00 (drop 2 (fmt_064x target));
         bitsN = int (length c) div 2
     in case int_0x (take 6 c) of
          Inl e \<Rightarrow> Inl e
        | Inr bitsBase \<Rightarrow>
            if bitsBase \<ge> 0x800000
            then Inr (push_bit 24 (bitsN + 1) OR drop_bit 8 bitsBase)
            else Inr (push_bit 24 bitsN OR bitsBase))"

subsection \<open>Sequencing of calls that may raise\<close>

definition ebind :: "exn + 'a \<Rightarrow> ('a \<Rightarrow> exn + 'b) \<Rightarrow> exn + 'b" where
  "ebind m f = (case m of Inl e \<Rightarrow> Inl e | Inr x \<Rightarrow> f x)"

subsection \<open>Headers and their byte layout\<close>

text \<open>
  A header is a dict in the source. \<open>prev_block_hash\<close> may be \<open>None\<close> (the case
  \<open>hash_header\<close> tests for); \<open>block_height\<close> is not part of the byte record.
\<close>

record header =
  version :: int
  prev_block_hash :: "string option"
  merkle_root :: string
  hash_reserved :: string
  timestamp :: int
  bits :: int
  nonce :: string
  n_solution :: string
  block_height :: int

text \<open>
  What the module takes from elsewhere: the double hash \<open>Hash\<close> and
  \<open>uint256_from_bytes\<close> of lib/bitcoin.py, the Equihash verifier of lib/equihash.py
  (\<open>is_gbp_valid\<close>, given the serialized header, the nonce as a number and the decoded
  solution; \<open>vector_from_bytes\<close> and the two Equihash constants are part of it), the
  standard library's base64, the constants of \<open>bitcoin.NetworkConstants\<close>, and the number
  of interpreter frames left for the recursion of \<open>read_header\<close>.
\<close>

record env =
  Hash :: "byte list \<Rightarrow> byte list"
  uint256_from_bytes :: "byte list \<Rightarrow> int"
  is_gbp_valid :: "byte list \<Rightarrow> int \<Rightarrow> byte list \<Rightarrow> bool"
  b64decode :: "string \<Rightarrow> exn + byte list"
  b64encode :: "byte list \<Rightarrow> string"
  TESTNET :: bool
  CHECKPOINTS :: "(string \<times> int) list"
  GENESIS :: string
  frames :: nat

text \<open>
  Modelled from the spec: \<open>bfh\<close>, \<open>bh2u\<close>, \<open>str_to_hash\<close> and \<open>hash_to_str\<close> of
  lib/util.py and lib/bitcoin.py, which are not among the sources. A hash is "stored and
  displayed as a hex string with byte order reversed relative to the stored hash's
  natural byte order": \<open>bfh\<close> reads pairs of hexadecimal digits, \<open>bh2u\<close> prints them in
  lower case, and the two hash conversions reverse the bytes. \<open>str_to_hash(None)\<close> is a
  TypeError.
\<close>

fun bfh :: "string \<Rightarrow> exn + byte list" where
  "bfh [] = Inr []"
| "bfh [c] = Inl ValueError"
| "bfh (c1 # c2 # cs) =
    (case (hexval c1, hexval c2) of
       (Some a, Some b) \<Rightarrow> ebind (bfh cs) (\<lambda>bs. Inr (of_nat (16 * a + b) # bs))
     | _ \<Rightarrow> Inl ValueError)"

definition bh2u :: "byte list \<Rightarrow> string" where
  "bh2u bs = concat (map (\<lambda>b. [hexdigit (unat b div 16), hexdigit (unat b mod 16)]) bs)"

definition str_to_hash :: "string option \<Rightarrow> exn + byte list" where
  "str_to_hash x =
    (case x of None \<Rightarrow> Inl TypeError | Some s \<Rightarrow> ebind (bfh s) (\<lambda>bs. Inr (rev bs)))"

definition hash_to_str :: "byte list \<Rightarrow> string" where
  "hash_to_str x = bh2u (rev x)"

definition serialize_header :: "env \<Rightarrow> header \<Rightarrow> exn + byte list" where
  "serialize_header E res =
    ebind (pack_i (version res)) (\<lambda>r1.
    ebind (str_to_hash (prev_block_hash res)) (\<lambda>r2.
    ebind (str_to_hash (Some (merkle_root res))) (\<lambda>r3.
    ebind (str_to_hash (Some (hash_reserved res))) (\<lambda>r4.
    ebind (pack_I (timestamp res)) (\<lambda>r5.
    ebind (pack_I (bits res)) (\<lambda>r6.
    ebind (str_to_hash (Some (nonce res))) (\<lambda>r7.
    ebind (b64decode E (n_solution res)) (\<lambda>sol.
    Inr (r1 @ r2 @ r3 @ r4 @ r5 @ r6 @ r7 @ ser_char_vector sol)))))))))"

text \<open>
  \<open>deserialize_header(f, height)\<close> reads from the position of \<open>f\<close>; the result is the
  header and the position after the record.
\<close>

definition deserialize_header :: "env \<Rightarrow> byte list \<Rightarrow> nat \<Rightarrow> int \<Rightarrow> exn + (header \<times> nat)" where
  "deserialize_header E content pos height =
    (case f_read content pos 4 of (d1, p1) \<Rightarrow>
     ebind (unpack_I d1) (\<lambda>v.
     case f_read content p1 32 of (d2, p2) \<Rightarrow>
     case f_read content p2 32 of (d3, p3) \<Rightarrow>
     case f_read content p3 32 of (d4, p4) \<Rightarrow>
     case f_read content p4 4 of (d5, p5) \<Rightarrow>
     ebind (unpack_I d5) (\<lambda>t.
     case f_read content p5 4 of (d6, p6) \<Rightarrow>
     ebind (unpack_I d6) (\<lambda>b.
     case f_read content p6 32 of (d7, p7) \<Rightarrow>
     ebind (deser_char_vector content p7) (\<lambda>(sol, p8).
     Inr (\<lparr> version = v, prev_block_hash = Some (hash_to_str d2),
            merkle_root = hash_to_str d3, hash_reserved = hash_to_str d4,
            timestamp = t, bits = b, nonce = hash_to_str d7,
            n_solution = b64encode E sol, block_height = height \<rparr>, p8))))))"

definition sha256_header :: "env \<Rightarrow> header \<Rightarrow> exn + int" where
  "sha256_header E h =
    ebind (serialize_header E h) (\<lambda>r. Inr (uint256_from_bytes E (Hash E r)))"

text \<open>
  \<open>hash_header\<close> assigns to the caller's dict, so the model returns the header as the
  call leaves it, next to the result; the assignment stays when the hashing raises.
\<close>

definition hash_header :: "env \<Rightarrow> header option \<Rightarrow> (exn + string) \<times> header option" where
  "hash_header E hdr =
    (case hdr of
       None \<Rightarrow> (Inr (replicate 64 (CHR ''0'')), None)
     | Some h \<Rightarrow>
         (let h' = (if prev_block_hash h = None
                    then h\<lparr>prev_block_hash := Some (concat (replicate 64 ''00''))\<rparr>
                    else h)
          in (ebind (serialize_header E h') (\<lambda>r. Inr (hash_to_str (Hash E r))), Some h')))"

text \<open>
  \<open>verify_header\<close>. Its \<open>target\<close> argument is overwritten by
  \<open>self.bits_to_target(header['bits'])\<close> before it is read. When the proof-of-work
  hash exceeds that value, the message of the exception to raise is built from
  \<open>'0x' + _powhash\<close> with \<open>_powhash\<close> a number (it was just compared with a number), and
  that concatenation is the TypeError that leaves the function. The previous header is a
  dict of the caller that \<open>hash_header\<close> may assign to; only the outcome is returned here.
\<close>

definition verify_header :: "env \<Rightarrow> header \<Rightarrow> header option \<Rightarrow> int \<Rightarrow> exn + unit" where
  "verify_header E hdr prev_header target =
    ebind (fst (hash_header E prev_header)) (\<lambda>prev_hash.
    ebind (sha256_header E hdr) (\<lambda>powhash.
    if Some prev_hash \<noteq> prev_block_hash hdr then Inl PrevHashMismatch
    else
      ebind (bits_to_target (bits hdr)) (\<lambda>target'.
      if powhash > target' then Inl TypeError
      else
        ebind (str_to_hash (Some (nonce hdr))) (\<lambda>nb.
        ebind (b64decode E (n_solution hdr)) (\<lambda>sol.
        ebind (serialize_header E hdr) (\<lambda>ser.
        if \<not> is_gbp_valid E ser (uint256_from_bytes E nb) sol then Inl EquihashInvalid
        else Inr ()))))))"

subsection \<open>Chain segments, their files and the registry\<close>

text \<open>
  \<open>path()\<close> is \<open>blockchain_headers\<close> for a segment without parent and
  \<open>forks/fork_<parent_id>_<checkpoint>\<close> otherwise, both under the headers directory.
\<close>

datatype path = MainFile | ForkFile int int

text \<open>
  A \<open>Blockchain\<close> object: \<open>size_c\<close> is its attribute \<open>_size\<close>, \<open>old_path\<close> is set
  only inside \<open>swap_with_parent\<close>. The lock is not modelled: calls run one at a time.
\<close>

record blockchain =
  checkpoint :: int
  parent_id :: "int option"
  size_c :: int
  old_path :: "path option"

text \<open>
  The state: the files on disk, the \<open>Blockchain\<close> objects by reference, and the
  module's dict \<open>blockchains\<close> from checkpoint to object, in insertion order.
\<close>

record state =
  files :: "path \<Rightarrow> byte list option"
  objs :: "nat \<Rightarrow> blockchain"
  blockchains :: "(int \<times> nat) list"

fun dict_set :: "'k \<Rightarrow> 'v \<Rightarrow> ('k \<times> 'v) list \<Rightarrow> ('k \<times> 'v) list" where
  "dict_set k v [] = [(k, v)]"
| "dict_set k v ((k', v') # kvs) =
    (if k = k' then (k, v) # kvs else (k', v') # dict_set k v kvs)"

definition upd_obj :: "state \<Rightarrow> nat \<Rightarrow> (blockchain \<Rightarrow> blockchain) \<Rightarrow> state" where
  "upd_obj s r f = s\<lparr>objs := (objs s)(r := f (objs s r))\<rparr>"

definition path_of :: "blockchain \<Rightarrow> path" where
  "path_of b = (case parent_id b of None \<Rightarrow> MainFile | Some p \<Rightarrow> ForkFile p (checkpoint b))"

text \<open>\<open>parent()\<close> is \<open>blockchains[self.parent_id]\<close>: a missing key is a KeyError.\<close>

definition parent :: "state \<Rightarrow> blockchain \<Rightarrow> exn + nat" where
  "parent s b =
    (case parent_id b of
       None \<Rightarrow> Inl KeyError
     | Some p \<Rightarrow> (case map_of (blockchains s) p of None \<Rightarrow> Inl KeyError | Some r \<Rightarrow> Inr r))"

definition height :: "blockchain \<Rightarrow> int" where
  "height b = checkpoint b + size_c b - 1"

subsection \<open>Scanning a file of records\<close>

lemma f_read_one:
  assumes "f_read content q 1 = ([b], p)"
  shows "q < length content \<and> p = Suc q"
proof (cases "drop q content")
  case Nil
  with assms show ?thesis by (simp add: f_read_def)
next
  case (Cons a as)
  then have "q < length content" by (cases "q < length content") auto
  with assms Cons show ?thesis by (simp add: f_read_def)
qed

lemma read_vector_size_advances:
  assumes "read_vector_size content q = Inr (vs, p1)"
  shows "q < length content \<and> q < p1"
proof -
  obtain xs p where r: "f_read content q 1 = (xs, p)" by (cases "f_read content q 1")
  with assms obtain b where xs: "xs = [b]"
    by (auto simp: read_vector_size_def split: list.splits)
  from f_read_one [OF r [unfolded xs]] have q: "q < length content" and p: "p = Suc q"
    by simp_all
  have "q < p1"
    using assms r xs p
    by (auto simp: read_vector_size_def Let_def f_read_def [of content "Suc q"]
             split: if_splits)
  with q show ?thesis ..
qed

text \<open>
  The loop of \<open>update_size\<close>: skip 140 bytes, read the size, skip the blob, and count
  the record when the position reached is below the end of the file; the first
  exception (the size read at or beyond the end) ends the loop.
\<close>

function update_size_loop :: "byte list \<Rightarrow> nat \<Rightarrow> int \<Rightarrow> int" where
  "update_size_loop content pos sz =
    (case read_vector_size content (pos + BASIC_HEADER_SIZE) of
       Inl e \<Rightarrow> sz
     | Inr (vs, p1) \<Rightarrow>
         update_size_loop content (p1 + vs)
           (if p1 + vs < length content then sz + 1 else sz))"
  by pat_completeness auto
termination
proof (relation "measure (\<lambda>(content, pos, sz). length content - pos)")
  fix content :: "byte list" and pos :: nat and sz :: int and x2 vs p1
  assume "read_vector_size content (pos + BASIC_HEADER_SIZE) = Inr x2" "(vs, p1) = x2"
  then have "pos + BASIC_HEADER_SIZE < length content \<and> pos + BASIC_HEADER_SIZE < p1"
    using read_vector_size_advances [of content "pos + BASIC_HEADER_SIZE" vs p1] by simp
  then show "((content, p1 + vs, if p1 + vs < length content then sz + 1 else sz),
              content, pos, sz) \<in> measure (\<lambda>(content, pos, sz). length content - pos)"
    by (simp, arith)
qed simp

declare update_size_loop.simps [simp del]

definition update_size :: "state \<Rightarrow> nat \<Rightarrow> state" where
  "update_size s r =
    (let p = path_of (objs s r);
         n = (case files s p of None \<Rightarrow> 0 | Some content \<Rightarrow> update_size_loop content 0 0)
     in upd_obj s r (\<lambda>b. b\<lparr>size_c := n\<rparr>))"

text \<open>The loop of \<open>_height_to_offset\<close>, from position \<open>p\<close>, for \<open>n\<close> records.\<close>

fun skip_records :: "byte list \<Rightarrow> nat \<Rightarrow> nat \<Rightarrow> exn + nat" where
  "skip_records content p 0 = Inr p"
| "skip_records content p (Suc n) =
    ebind (read_vector_size content (p + BASIC_HEADER_SIZE)) (\<lambda>(vs, p1).
      if p1 + vs \<ge> length content then Inl OutOfFile
      else skip_records content (p1 + vs) n)"

text \<open>
  \<open>_height_to_offset(f, height, start)\<close> for a file with the given content, open at
  position \<open>pos\<close>. After the loop the function seeks back to \<open>pos\<close> and returns
  \<open>f.tell()\<close>, so the position the loop reached is dropped.
\<close>

definition height_to_offset :: "byte list \<Rightarrow> nat \<Rightarrow> int \<Rightarrow> nat \<Rightarrow> exn + nat" where
  "height_to_offset content pos hgt start =
    ebind (skip_records content start (nat hgt)) (\<lambda>reached. Inr pos)"

text \<open>\<open>f.seek(offset); f.write(data)\<close> on a file with the given content.\<close>

definition file_write :: "byte list \<Rightarrow> nat \<Rightarrow> byte list \<Rightarrow> byte list" where
  "file_write content offset data =
    take offset content @ replicate (offset - length content) 0 @ data
      @ drop (offset + length data) content"

text \<open>
  \<open>write(data, delta, truncate)\<close>, with \<open>trunc\<close> for the flag. The file is open at its end when the offset is
  asked for. An exception leaves the file as it was and skips \<open>update_size\<close>.
\<close>

definition write_data :: "state \<Rightarrow> nat \<Rightarrow> byte list \<Rightarrow> int \<Rightarrow> bool \<Rightarrow> exn + state" where
  "write_data s r data delta trunc =
    (let filename = path_of (objs s r) in
     case files s filename of
       None \<Rightarrow> Inl FileNotFoundError
     | Some content \<Rightarrow>
         (let eof = length content in
          ebind (height_to_offset content eof delta 0) (\<lambda>offset.
            let c1 = (if trunc \<and> offset < eof then take offset content else content)
            in Inr (update_size
                      (s\<lparr>files := (files s)(filename \<mapsto> file_write c1 offset data)\<rparr>) r))))"

subsection \<open>Reorganisation\<close>

text \<open>
  Calls that change the state and may raise after a part of their effect return the
  state they leave behind in both cases: \<open>Inl (e, s')\<close> is exception \<open>e\<close> in state \<open>s'\<close>.
\<close>

definition ebind_st :: "state \<Rightarrow> exn + 'a \<Rightarrow> ('a \<Rightarrow> (exn \<times> state) + 'b) \<Rightarrow> (exn \<times> state) + 'b" where
  "ebind_st s m f = (case m of Inl e \<Rightarrow> Inl (e, s) | Inr x \<Rightarrow> f x)"

definition open_read :: "state \<Rightarrow> path \<Rightarrow> exn + byte list" where
  "open_read s p = (case files s p of None \<Rightarrow> Inl FileNotFoundError | Some c \<Rightarrow> Inr c)"

text \<open>\<open>for b in blockchains.values(): b.old_path = b.path()\<close>\<close>

definition store_old_paths :: "state \<Rightarrow> state" where
  "store_old_paths s =
    fold (\<lambda>b s'. upd_obj s' b (\<lambda>ob. ob\<lparr>old_path := Some (path_of ob)\<rparr>))
      (map snd (blockchains s)) s"

text \<open>
  The loop that renames the files of the other segments; \<open>os.rename\<close> of a file that
  does not exist raises.
\<close>

fun move_files :: "nat \<Rightarrow> nat \<Rightarrow> nat list \<Rightarrow> state \<Rightarrow> (exn \<times> state) + state" where
  "move_files r pr [] s = Inr s"
| "move_files r pr (b # bs) s =
    (if b = r \<or> b = pr then move_files r pr bs s
     else
       (case old_path (objs s b) of
          None \<Rightarrow> Inl (AttributeError, s)
        | Some old \<Rightarrow>
            if old \<noteq> path_of (objs s b)
            then (case files s old of
                    None \<Rightarrow> Inl (FileNotFoundError, s)
                  | Some c \<Rightarrow>
                      move_files r pr bs
                        (s\<lparr>files := ((files s)(old := None))(path_of (objs s b) \<mapsto> c)\<rparr>))
            else move_files r pr bs s))"

definition swap_with_parent :: "state \<Rightarrow> nat \<Rightarrow> (exn \<times> state) + state" where
  "swap_with_parent s r =
    (let self = objs s r in
     if parent_id self = None then Inr s
     else
       ebind_st s (parent s self) (\<lambda>pr.
       let parent_branch_size = height (objs s pr) - checkpoint self + 1 in
       if parent_branch_size \<ge> size_c self then Inr s
       else
         let parent_id0 = parent_id self;
             checkpoint0 = checkpoint self
         in
         ebind_st s (open_read s (path_of self)) (\<lambda>my_data.
         ebind_st s (open_read s (path_of (objs s pr))) (\<lambda>pcontent.
         ebind_st s (height_to_offset pcontent 0 (checkpoint0 - checkpoint (objs s pr)) 0) (\<lambda>offset.
         ebind_st s (height_to_offset pcontent 0 parent_branch_size offset) (\<lambda>len.
         let parent_data = take len (drop offset pcontent) in
         ebind_st s (write_data s r parent_data 0 False) (\<lambda>s1.
         ebind_st s1 (write_data s1 pr my_data (checkpoint0 - checkpoint (objs s1 pr)) False) (\<lambda>s2.
         let s3 = store_old_paths s2;
             s4 = upd_obj s3 r (\<lambda>ob. ob\<lparr>parent_id := parent_id (objs s3 pr)\<rparr>);
             s5 = upd_obj s4 pr (\<lambda>ob. ob\<lparr>parent_id := parent_id0\<rparr>);
             s6 = upd_obj s5 r (\<lambda>ob. ob\<lparr>checkpoint := checkpoint (objs s5 pr)\<rparr>);
             s7 = upd_obj s6 pr (\<lambda>ob. ob\<lparr>checkpoint := checkpoint0\<rparr>);
             s8 = upd_obj s7 r (\<lambda>ob. ob\<lparr>size_c := size_c (objs s7 pr)\<rparr>);
             s9 = upd_obj s8 pr (\<lambda>ob. ob\<lparr>size_c := parent_branch_size\<rparr>)
         in
         case move_files r pr (map snd (blockchains s9)) s9 of
           Inl es \<Rightarrow> Inl es
         | Inr s10 \<Rightarrow>
             (let s11 = s10\<lparr>blockchains :=
                          dict_set (checkpoint (objs s10 r)) r (blockchains s10)\<rparr>
              in Inr (s11\<lparr>blockchains :=
                          dict_set (checkpoint (objs s11 pr)) pr (blockchains s11)\<rparr>))))))))))"

definition save_header :: "env \<Rightarrow> state \<Rightarrow> nat \<Rightarrow> header \<Rightarrow> (exn \<times> state) + state" where
  "save_header E s r hdr =
    (let delta = block_height hdr - checkpoint (objs s r) in
     ebind_st s (serialize_header E hdr) (\<lambda>data.
     if delta \<noteq> size_c (objs s r) then Inl (AssertionError, s)
     else ebind_st s (write_data s r data delta False) (\<lambda>s1. swap_with_parent s1 r)))"

subsection \<open>Reading headers back\<close>

text \<open>The loop of \<open>read_header\<close>, which skips records without looking at the end.\<close>

fun skip_plain :: "byte list \<Rightarrow> nat \<Rightarrow> nat \<Rightarrow> exn + nat" where
  "skip_plain content p 0 = Inr p"
| "skip_plain content p (Suc n) =
    ebind (read_vector_size content (p + BASIC_HEADER_SIZE)) (\<lambda>(vs, p1).
      skip_plain content (p1 + vs) n)"

text \<open>
  \<open>read_header\<close> calls itself on the parent. The first argument after the state counts
  the interpreter frames left: at none, Python raises RecursionError. When the file does
  not exist, \<open>h\<close> is never assigned and \<open>return h\<close> raises.
\<close>

fun read_header :: "env \<Rightarrow> state \<Rightarrow> nat \<Rightarrow> nat \<Rightarrow> int \<Rightarrow> exn + header option" where
  "read_header E s 0 r hgt = Inl RecursionError"
| "read_header E s (Suc n) r hgt =
    (let self = objs s r in
     if parent_id self = Some (checkpoint self) then Inl AssertionError
     else if hgt < 0 then Inr None
     else if hgt < checkpoint self
       then ebind (parent s self) (\<lambda>pr. read_header E s n pr hgt)
     else if hgt > height self then Inr None
     else
       (let delta = hgt - checkpoint self in
        case files s (path_of self) of
          None \<Rightarrow> Inl UnboundLocalError
        | Some content \<Rightarrow>
            ebind (skip_plain content 0 (nat delta)) (\<lambda>p.
            ebind (deserialize_header E content p hgt) (\<lambda>(h, p'). Inr (Some h)))))"

subsection \<open>Retargeting and connecting\<close>

text \<open>Python's \<open>xs[i]\<close>: a negative index counts from the end.\<close>

definition py_index :: "'a list \<Rightarrow> int \<Rightarrow> exn + 'a" where
  "py_index xs i =
    (if 0 \<le> i \<and> i < int (length xs) then Inr (xs ! nat i)
     else if i < 0 \<and> - int (length xs) \<le> i then Inr (xs ! nat (int (length xs) + i))
     else Inl IndexError)"

definition get_target :: "env \<Rightarrow> state \<Rightarrow> nat \<Rightarrow> int \<Rightarrow> exn + int" where
  "get_target E s r index =
    (if TESTNET E then Inr 0
     else if index = - 1 then Inr MAX_TARGET
     else if index < int (length (CHECKPOINTS E))
       then ebind (py_index (CHECKPOINTS E) index) (\<lambda>(h, t). Inr t)
     else
       ebind (read_header E s (frames E) r (index * 2016)) (\<lambda>first.
       ebind (read_header E s (frames E) r (index * 2016 + 2015)) (\<lambda>last.
       case last of
         None \<Rightarrow> Inl AttributeError
       | Some l \<Rightarrow>
           ebind (bits_to_target (bits l)) (\<lambda>target.
           case first of
             None \<Rightarrow> Inl AttributeError
           | Some f \<Rightarrow>
               (let nActualTimespan = timestamp l - timestamp f;
                    nTargetTimespan = 14 * 24 * 60 * 60;
                    nActualTimespan = max nActualTimespan (nTargetTimespan div 4);
                    nActualTimespan = min nActualTimespan (nTargetTimespan * 4)
                in Inr (min MAX_TARGET ((target * nActualTimespan) div nTargetTimespan)))))))"

text \<open>
  What a caller may pass to \<open>can_connect\<close> as the header: \<open>None\<close> (the result of
  \<open>read_header\<close> that \<open>read_blockchains\<close> passes on), a dict without the key
  \<open>block_height\<close>, a dict whose \<open>block_height\<close> is \<open>None\<close>, or a dict with a height.
  In the second and third case the call is over before any other entry is read, so
  the other entries are not kept.
\<close>

datatype pyheader = PyNone | NoHeightKey | NoneHeight | Dict header

text \<open>
  \<open>can_connect\<close>. Line 364, \<open>header['block_height']\<close>, is a TypeError on \<open>None\<close>
  and a KeyError on a missing key. With a height that is \<open>None\<close>, \<open>height - 1\<close> is a
  TypeError: in line 365 when \<open>check_height\<close> is set, and otherwise inside the first
  \<open>try\<close>, after \<open>height == 0\<close> was false. The bare \<open>except\<close> around the lookup
  of the previous header and the \<open>except BaseException\<close> around \<open>verify_header\<close> turn
  every exception into \<open>False\<close>; lines 364 and 365, the hash of a header of height 0
  and \<open>get_target\<close> are outside both.
\<close>

definition can_connect :: "env \<Rightarrow> state \<Rightarrow> nat \<Rightarrow> pyheader \<Rightarrow> bool \<Rightarrow> exn + bool" where
  "can_connect E s r header check_height =
    (case header of
       PyNone \<Rightarrow> Inl TypeError
     | NoHeightKey \<Rightarrow> Inl KeyError
     | NoneHeight \<Rightarrow> if check_height then Inl TypeError else Inr False
     | Dict hdr \<Rightarrow>
        (let hgt = block_height hdr in
         if check_height \<and> height (objs s r) \<noteq> hgt - 1 then Inr False
         else if hgt = 0
           then ebind (fst (hash_header E (Some hdr))) (\<lambda>h. Inr (h = GENESIS E))
         else
           (case ebind (read_header E s (frames E) r (hgt - 1)) (\<lambda>prev_header.
                   ebind (fst (hash_header E prev_header)) (\<lambda>prev_hash.
                   Inr (snd (hash_header E prev_header), prev_hash))) of
              Inl e \<Rightarrow> Inr False
            | Inr (prev_header, prev_hash) \<Rightarrow>
                if Some prev_hash \<noteq> prev_block_hash hdr then Inr False
                else
                  ebind (get_target E s r (hgt div 2016 - 1)) (\<lambda>target.
                  case verify_header E hdr prev_header target of
                    Inl e \<Rightarrow> Inr False
                  | Inr u \<Rightarrow> Inr True))))"

text \<open>
  The test of \<open>read_blockchains\<close> for a fork \<open>b\<close> found on disk (lines 88 and 89):
  \<open>h = b.read_header(b.checkpoint)\<close>, then \<open>b.parent().can_connect(h, check_height=False)\<close>.
  What \<open>read_header\<close> returned is passed on as it is, \<open>None\<close> included.
\<close>

definition fork_connects :: "env \<Rightarrow> state \<Rightarrow> nat \<Rightarrow> exn + bool" where
  "fork_connects E s b =
    ebind (read_header E s (frames E) b (checkpoint (objs s b))) (\<lambda>h.
    ebind (parent s (objs s b)) (\<lambda>pr.
    can_connect E s pr (case h of None \<Rightarrow> PyNone | Some hdr \<Rightarrow> Dict hdr) False))"

subsection \<open>Chunks\<close>

text \<open>
  \<open>len(data) / 1484\<close> is Python 3's true division: the result is a float whatever the
  operands, and \<open>range\<close> of a float is a TypeError. Only the kind of number matters
  here, so a float is kept as the quotient it came from.
\<close>

datatype pynum = PyInt int | PyFloat int int

definition py_range :: "pynum \<Rightarrow> exn + int list" where
  "py_range n = (case n of PyInt k \<Rightarrow> Inr (map int [0..<nat k]) | PyFloat a b \<Rightarrow> Inl TypeError)"

text \<open>
  The body of the loop of \<open>verify_chunk\<close> starts with \<open>self.deserialize_header(...)\<close>, an
  attribute the class does not have: an iteration raises AttributeError before anything
  else.
\<close>

fun verify_chunk_loop :: "int list \<Rightarrow> exn + unit" where
  "verify_chunk_loop [] = Inr ()"
| "verify_chunk_loop (i # rest) = Inl AttributeError"

definition verify_chunk :: "env \<Rightarrow> state \<Rightarrow> nat \<Rightarrow> int \<Rightarrow> byte list \<Rightarrow> exn + unit" where
  "verify_chunk E s r index data =
    (let num = PyFloat (int (length data)) 1484 in
     ebind (if index \<noteq> 0 then read_header E s (frames E) r (index * 2016 - 1) else Inr None)
       (\<lambda>prev_header.
     ebind (py_range num) (\<lambda>rng. verify_chunk_loop rng)))"

text \<open>
  \<open>save_chunk\<close>. The offset comes from \<open>f.tell()\<close> and is never negative, so the branch
  \<open>if d < 0\<close> is not taken.
\<close>

definition save_chunk :: "env \<Rightarrow> state \<Rightarrow> nat \<Rightarrow> int \<Rightarrow> byte list \<Rightarrow> (exn \<times> state) + state" where
  "save_chunk E s r index chunk =
    ebind_st s (open_read s (path_of (objs s r))) (\<lambda>content.
    ebind_st s (height_to_offset content 0 (index * 2016 - checkpoint (objs s r)) 0) (\<lambda>d.
    ebind_st s (write_data s r chunk (int d) (index > int (length (CHECKPOINTS E)))) (\<lambda>s1.
    swap_with_parent s1 r)))"

text \<open>\<open>connect_chunk\<close> returns a truth value and leaves a state behind.\<close>

definition connect_chunk :: "env \<Rightarrow> state \<Rightarrow> nat \<Rightarrow> int \<Rightarrow> string \<Rightarrow> bool \<times> state" where
  "connect_chunk E s r idx hexdata =
    (case ebind_st s (bfh hexdata) (\<lambda>data.
            ebind_st s (verify_chunk E s r idx data) (\<lambda>u.
            save_chunk E s r idx data)) of
       Inl (e, s') \<Rightarrow> (False, s')
     | Inr s' \<Rightarrow> (True, s'))"

subsection \<open>Digits at a fixed width\<close>

text \<open>The \<open>k\<close> low hexadecimal digits of \<open>n\<close>; used to reason about \<open>fmt_064x\<close>.\<close>

primrec hexpad :: "nat \<Rightarrow> nat \<Rightarrow> string" where
  "hexpad 0 n = []"
| "hexpad (Suc k) n = hexpad k (n div 16) @ [hexdigit (n mod 16)]"

subsection \<open>Example data\<close>

text \<open>
  Inputs on which the model is run. The headers have all-zero hashes and an empty
  solution, so that a record is the 140 fixed bytes followed by the size prefix 0.
\<close>

definition zero_hash :: string where
  "zero_hash = replicate 64 (CHR ''0'')"

definition ex_header :: "int \<Rightarrow> int \<Rightarrow> int \<Rightarrow> int \<Rightarrow> header" where
  "ex_header v t b h =
    \<lparr> version = v, prev_block_hash = Some zero_hash, merkle_root = zero_hash,
      hash_reserved = zero_hash, timestamp = t, bits = b, nonce = zero_hash,
      n_solution = [], block_height = h \<rparr>"

definition ex_record :: "int \<Rightarrow> int \<Rightarrow> int \<Rightarrow> byte list" where
  "ex_record v t b =
    le_bytes 4 v @ replicate 96 0 @ le_bytes 4 t @ le_bytes 4 b @ replicate 32 0 @ ser_char_vector []"

text \<open>
  An environment for these runs: a hash that always returns the number 1 in
  little-endian bytes, a proof verifier that accepts, base64 on the empty solution only,
  the main network without checkpoints.
\<close>

definition env0 :: env where
  "env0 =
    \<lparr> Hash = (\<lambda>bs. 1 # replicate 31 0), uint256_from_bytes = le_val,
      is_gbp_valid = (\<lambda>ser n sol. True),
      b64decode = (\<lambda>s. if s = [] then Inr [] else Inl Base64Error),
      b64encode = (\<lambda>bs. []),
      TESTNET = False, CHECKPOINTS = [], GENESIS = zero_hash, frames = 1000 \<rparr>"

text \<open>
  A main chain file of three records with a fork of two records at height 1; the
  cached sizes are those \<open>update_size\<close> computes for these files. The root object
  is at reference 10, the fork at 11.
\<close>

definition seg :: "int \<Rightarrow> int option \<Rightarrow> int \<Rightarrow> blockchain" where
  "seg c p n = \<lparr> checkpoint = c, parent_id = p, size_c = n, old_path = None \<rparr>"

definition root_file :: "byte list" where
  "root_file = ex_record 1 0 0 @ ex_record 2 0 0 @ ex_record 3 0 0"

definition fork_file :: "byte list" where
  "fork_file = ex_record 4 0 0 @ ex_record 5 0 0"

definition ex_state :: state where
  "ex_state =
    \<lparr> files = [MainFile \<mapsto> root_file, ForkFile 0 1 \<mapsto> fork_file],
      objs = (\<lambda>i. if i = 11 then seg 1 (Some 0) 1 else seg 0 None 2),
      blockchains = [(0, 10), (1, 11)] \<rparr>"

text \<open>
  The same after the fork's file received one more record, and after the main file
  received the fork's content as well.
\<close>

definition ex_state1 :: state where
  "ex_state1 = ex_state\<lparr>files := (files ex_state)(ForkFile 0 1 \<mapsto> fork_file @ ex_record 6 0 0),
           objs := (objs ex_state)(11 := seg 1 (Some 0) 2)\<rparr>"

definition ex_state2 :: state where
  "ex_state2 = ex_state1\<lparr>files := (files ex_state1)(MainFile \<mapsto> root_file @ fork_file @ ex_record 6 0 0),
           objs := (objs ex_state1)(10 := seg 0 None 5)\<rparr>"

text \<open>
  A main chain file of 2017 records: the first 2015 have timestamp 0, the record of
  height 2015 has timestamp 5000000 and bits 0x1c00ffff.
\<close>

definition long_file :: "byte list" where
  "long_file =
    concat (replicate 2015 (ex_record 1 0 0)) @ ex_record 2 5000000 0x1c00ffff @ ex_record 3 0 0"

definition long_state :: state where
  "long_state =
    \<lparr> files = [MainFile \<mapsto> long_file], objs = (\<lambda>i. seg 0 None 2016),
      blockchains = [(0, 10)] \<rparr>"

text \<open>
  A fork file of one record beside the main file, as \<open>read_blockchains\<close> finds it:
  the fork object is new, its size is what \<open>update_size\<close> computes, and the registry
  holds the root only.
\<close>

definition one_record_fork :: state where
  "one_record_fork =
    \<lparr> files = [MainFile \<mapsto> root_file, ForkFile 0 1 \<mapsto> ex_record 4 0 0],
      objs = (\<lambda>i. if i = 11 then seg 1 (Some 0) 0 else seg 0 None 2),
      blockchains = [(0, 10)] \<rparr>"

text \<open>
  The hash the example environment gives every header, as a string.
\<close>

definition one_hash :: string where
  "one_hash = replicate 62 (CHR ''0'') @ ''01''"

text \<open>
  A file made of \<open>n\<close> records of 141 bytes, each with an empty solution.
\<close>

definition tiny_file :: "nat \<Rightarrow> byte list \<Rightarrow> bool" where
  "tiny_file n content \<longleftrightarrow>
    length content = 141 * n \<and> (\<forall>i<n. content ! (141 * i + 140) = 0)"

section \<open>Properties\<close>

subsection \<open>Compact difficulty round trip\<close>

lemma length_hexpad [simp]: "length (hexpad k n) = k"
  by (induction k arbitrary: n) auto

lemma hexdigit_0 [simp]: "hexdigit 0 = CHR ''0''"
  by (simp add: hexdigit_def)

lemma hexpad_zero: "hexpad k 0 = replicate k (CHR ''0'')"
  by (induction k) (auto simp: replicate_append_same)

lemma zfill_hex_of_nat:
  "n < 16 ^ w \<Longrightarrow> 0 < w \<Longrightarrow> length (hex_of_nat n) \<le> w \<and> zfill w (hex_of_nat n) = hexpad w n"
proof (induction w arbitrary: n)
  case 0
  then show ?case by simp
next
  case (Suc w)
  show ?case
  proof (cases "n < 16")
    case True
    then show ?thesis
      by (simp add: hex_of_nat.simps [of n] zfill_def hexpad_zero)
  next
    case False
    then have w: "0 < w" using Suc.prems by (cases w) auto
    have "n div 16 < 16 ^ w" using Suc.prems by (simp add: less_mult_imp_div_less mult.commute)
    from Suc.IH [OF this w] False show ?thesis
      by (simp add: hex_of_nat.simps [of n] zfill_def Suc_diff_le)
  qed
qed

lemma hexpad_shift: "hexpad (a + b) (m * 16 ^ b) = hexpad a m @ replicate b (CHR ''0'')"
  by (induction b arbitrary: m) (auto simp: replicate_append_same mult.assoc [symmetric])

lemma hexpad_small: "m < 16 ^ k \<Longrightarrow> hexpad (a + k) m = replicate a (CHR ''0'') @ hexpad k m"
proof (induction k arbitrary: m)
  case 0
  then show ?case by (simp add: hexpad_zero)
next
  case (Suc k)
  have "m div 16 < 16 ^ k" using Suc.prems by (simp add: less_mult_imp_div_less mult.commute)
  from Suc.IH [OF this] show ?case by simp
qed

lemma hexval_hexdigit_all: "list_all (\<lambda>d. hexval (hexdigit d) = Some d) [0..<16]"
  by code_simp

lemma hexval_hexdigit: "d < 16 \<Longrightarrow> hexval (hexdigit d) = Some d"
  using hexval_hexdigit_all by (simp add: list_all_iff)

lemma hex_value_append:
  "hex_value (xs @ ys) acc = (case hex_value xs acc of None \<Rightarrow> None | Some a \<Rightarrow> hex_value ys a)"
  by (induction xs arbitrary: acc) (auto split: option.splits)

lemma hex_value_hexpad: "hex_value (hexpad k n) acc = Some (acc * 16 ^ k + n mod 16 ^ k)"
proof (induction k arbitrary: n acc)
  case 0
  then show ?case by simp
next
  case (Suc k)
  have "n mod (16 * 16 ^ k) = 16 * (n div 16 mod 16 ^ k) + n mod 16"
    by (simp add: mod_mult2_eq)
  then show ?case
    by (simp add: hex_value_append Suc.IH hexval_hexdigit algebra_simps)
qed

lemma hex_value_zeros: "hex_value (replicate j (CHR ''0'')) acc = Some (acc * 16 ^ j)"
  using hex_value_hexpad [of j 0 acc] by (simp add: hexpad_zero)

lemma strip00_zeros:
  "6 \<le> length s \<Longrightarrow> strip00 (replicate (2 * j) (CHR ''0'') @ s) = strip00 s"
proof (induction j)
  case 0
  then show ?case by simp
next
  case (Suc j)
  have "strip00 (replicate (2 * Suc j) (CHR ''0'') @ s) = strip00 (drop 2 (replicate (2 * Suc j) (CHR ''0'') @ s))"
    using Suc.prems by (subst strip00.simps) simp
  also have "drop 2 (replicate (2 * Suc j) (CHR ''0'') @ s) = replicate (2 * j) (CHR ''0'') @ s"
    by simp
  finally show ?case using Suc by simp
qed

lemma hexdigit_eq_0_all: "list_all (\<lambda>d. hexdigit d = CHR ''0'' \<longleftrightarrow> d = 0) [0..<16]"
  by code_simp

lemma hexdigit_eq_0: "d < 16 \<Longrightarrow> hexdigit d = CHR ''0'' \<longleftrightarrow> d = 0"
  using hexdigit_eq_0_all by (simp add: list_all_iff)

lemma hexpad_split: "hexpad (a + b) n = hexpad a (n div 16 ^ b) @ hexpad b n"
  by (induction b arbitrary: n) (auto simp: div_mult2_eq)

lemma hexpad2_00: "hexpad 2 m = ''00'' \<longleftrightarrow> m mod 256 = 0"
proof -
  have "hexpad 2 m = [hexdigit (m div 16 mod 16), hexdigit (m mod 16)]"
    by (simp add: numeral_2_eq_2)
  moreover have "m mod 256 = 0 \<longleftrightarrow> m div 16 mod 16 = 0 \<and> m mod 16 = 0"
    using mod_mult2_eq [of m 16 16] by simp
  ultimately show ?thesis by (simp add: hexdigit_eq_0)
qed

lemma push_bit_or_small:
  fixes n b :: int
  assumes "0 \<le> b" "b < 2 ^ m"
  shows "push_bit m n OR b = n * 2 ^ m + b"
proof -
  have b: "take_bit m b = b" using assms by (simp add: take_bit_int_eq_self)
  have "push_bit m n + take_bit m b = push_bit m n OR take_bit m b"
    by (rule disjunctive_add) (auto simp: bit_simps)
  then show ?thesis by (simp add: b push_bit_eq_mult)
qed

lemma and_255: "(x::int) AND 0xff = x mod 256"
proof -
  have "x AND mask 8 = x mod 2 ^ 8"
    by (simp only: take_bit_eq_mask [symmetric] take_bit_eq_mod)
  then show ?thesis by (simp add: mask_eq_exp_minus_1)
qed

lemma and_ffffff: "(x::int) AND 0xffffff = x mod 2 ^ 24"
proof -
  have "x AND mask 24 = x mod 2 ^ 24"
    by (simp only: take_bit_eq_mask [symmetric] take_bit_eq_mod)
  then show ?thesis by (simp add: mask_eq_exp_minus_1)
qed

lemma fmt_target:
  assumes B: "B < 16 ^ 6" and k: "k \<le> 26"
  shows "drop 2 (fmt_064x (int (B * 16 ^ (2 * k)))) =
         replicate (2 * (28 - k)) (CHR ''0'') @ hexpad 6 B @ replicate (2 * k) (CHR ''0'')"
proof -
  have "(16::nat) ^ (2 * k) \<le> 16 ^ 52" using k by (intro power_increasing) auto
  then have "B * 16 ^ (2 * k) < 16 ^ 6 * 16 ^ 52"
    using B by (intro mult_less_le_imp_less) auto
  also have "(16::nat) ^ 6 * 16 ^ 52 \<le> 16 ^ 64" by (simp add: power_add [symmetric])
  finally have lt: "B * 16 ^ (2 * k) < 16 ^ 64" .
  have "fmt_064x (int (B * 16 ^ (2 * k))) = hexpad 64 (B * 16 ^ (2 * k))"
    using zfill_hex_of_nat [OF lt] unfolding fmt_064x_def
    by (simp only: of_nat_less_0_iff if_False nat_int)
  also have "\<dots> = hexpad ((64 - 2 * k) + 2 * k) (B * 16 ^ (2 * k))" using k by simp
  also have "\<dots> = hexpad (64 - 2 * k) B @ replicate (2 * k) (CHR ''0'')"
    by (rule hexpad_shift)
  also have "hexpad (64 - 2 * k) B = hexpad ((58 - 2 * k) + 6) B" using k by simp
  also have "\<dots> = replicate (58 - 2 * k) (CHR ''0'') @ hexpad 6 B"
    by (rule hexpad_small [OF B])
  finally have "fmt_064x (int (B * 16 ^ (2 * k))) =
      replicate (58 - 2 * k) (CHR ''0'') @ hexpad 6 B @ replicate (2 * k) (CHR ''0'')"
    by simp
  moreover have "58 - 2 * k = 2 + 2 * (28 - k)" using k by simp
  ultimately show ?thesis by (simp add: replicate_add)
qed

lemma strip00_stop: "take 2 c \<noteq> ''00'' \<or> length c \<le> 6 \<Longrightarrow> strip00 c = c"
  by (subst strip00.simps) auto

lemma int_0x_hexpad: "0 < k \<Longrightarrow> n < 16 ^ k \<Longrightarrow> int_0x (hexpad k n @ replicate j (CHR ''0'')) = Inr (int (n * 16 ^ j))"
proof -
  assume k: "0 < k" and n: "n < 16 ^ k"
  have "hexpad k n \<noteq> []" using k by (cases k) auto
  then show ?thesis
    using n by (simp add: int_0x_def hex_value_append hex_value_hexpad hex_value_zeros)
qed

lemma target_to_bits_canonical:
  assumes B1: "0x8000 \<le> B" and B2: "B \<le> 0x7fffff" and k: "k \<le> 26"
  shows "target_to_bits (int (B * 16 ^ (2 * k))) = Inr (int (k + 3) * 2 ^ 24 + int B)"
proof -
  let ?z = "replicate (2 * k) (CHR ''0'')"
  let ?s = "hexpad 6 B @ ?z"
  have B6: "B < 16 ^ 6" using B2 by simp
  have c0: "strip00 (drop 2 (fmt_064x (int (B * 16 ^ (2 * k))))) = strip00 ?s"
    by (simp only: fmt_target [OF B6 k]) (rule strip00_zeros, simp)
  have small: "0 \<le> int B" "int B < 2 ^ 24" using B2 by auto
  show ?thesis
  proof (cases "k = 0 \<or> 16 ^ 4 \<le> B")
    case True
    have "take 2 ?s = hexpad 2 (B div 16 ^ 4)"
      using hexpad_split [of 2 4 B] by simp
    moreover have "k \<noteq> 0 \<Longrightarrow> (B div 16 ^ 4) mod 256 \<noteq> 0"
      using True B2 by (simp add: div_greater_zero_iff less_mult_imp_div_less)
    ultimately have "take 2 ?s \<noteq> ''00'' \<or> length ?s \<le> 6"
      by (cases "k = 0") (simp_all add: hexpad2_00)
    then have c: "strip00 ?s = ?s" by (rule strip00_stop)
    have t6: "take 6 ?s = hexpad 6 B @ replicate 0 (CHR ''0'')" by simp
    have v: "int_0x (take 6 ?s) = Inr (int B)"
      unfolding t6 using int_0x_hexpad [of 6 B 0] B6 by simp
    have "\<not> (int B \<ge> 0x800000)" using B2 by simp
    then show ?thesis
      unfolding target_to_bits_def c0 c
      by (simp add: v Let_def push_bit_or_small [OF small] del: take_append)
  next
    case False
    then have k0: "0 < k" and B4: "B < 16 ^ 4" by auto
    let ?t = "hexpad 4 B @ ?z"
    have h6: "hexpad 6 B = ''00'' @ hexpad 4 B"
      using hexpad_small [OF B4, of 2] by (simp add: numeral_2_eq_2)
    have "strip00 ?s = strip00 (drop 2 ?s)"
      using k0 by (subst strip00.simps) (simp add: h6)
    also have "drop 2 ?s = ?t" by (simp add: h6)
    finally have s1: "strip00 ?s = strip00 ?t" .
    have "take 2 ?t = hexpad 2 (B div 16 ^ 2)"
      using hexpad_split [of 2 2 B] by simp
    moreover have "(B div 16 ^ 2) mod 256 \<noteq> 0"
    proof -
      have "128 \<le> B div 256" using B1 by simp
      moreover have "B div 256 < 256" using B4 by simp
      ultimately show ?thesis by simp
    qed
    ultimately have "take 2 ?t \<noteq> ''00''" by (simp add: hexpad2_00)
    then have c: "strip00 ?t = ?t" by (simp add: strip00_stop)
    obtain j where j: "k = Suc j" using k0 by (cases k) auto
    have t6: "take 6 ?t = hexpad 4 B @ replicate 2 (CHR ''0'')"
      by (simp add: j numeral_2_eq_2)
    have v: "int_0x (take 6 ?t) = Inr (int (B * 16 ^ 2))"
      unfolding t6 using int_0x_hexpad [of 4 B 2] B4 by simp
    have big: "int (B * 16 ^ 2) \<ge> 0x800000" using B1 by simp
    have d8: "drop_bit 8 (int (B * 16 ^ 2)) = int B" by (simp add: drop_bit_eq_div)
    have "int (length ?t) div 2 + 1 = int (k + 3)" by simp
    then show ?thesis
      unfolding target_to_bits_def c0 s1 c
      by (simp only: v Let_def sum.case big if_True d8 push_bit_or_small [OF small])
  qed
qed

lemma bits_to_target_Inr:
  "bits_to_target b = Inr t \<longleftrightarrow>
    (let N = b div 2 ^ 24 mod 256; B = b mod 2 ^ 24
     in 3 \<le> N \<and> N \<le> 29 \<and> 0x8000 \<le> B \<and> B \<le> 0x7fffff \<and> t = B * 2 ^ nat (8 * (N - 3)))"
  by (auto simp: bits_to_target_def Let_def and_255 and_ffffff drop_bit_eq_div push_bit_eq_mult)

text \<open>
  Claim C7. Whenever \<open>bits_to_target\<close> accepts a compact value \<open>b\<close> (top byte in
  [0x03, 0x1d], low 24 bits in [0x8000, 0x7fffff]) and returns the target \<open>t\<close>,
  \<open>target_to_bits t\<close> returns a compact value, namely the low 32 bits of \<open>b\<close>, and
  \<open>bits_to_target\<close> of that value is \<open>t\<close> again: the target is recovered exactly.
\<close>

theorem bits_target_roundtrip:
  assumes "bits_to_target b = Inr t"
  shows "target_to_bits t = Inr (take_bit 32 b) \<and> bits_to_target (take_bit 32 b) = Inr t"
proof -
  define N where "N = b div 2 ^ 24 mod 256"
  define B where "B = b mod 2 ^ 24"
  from assms have N: "3 \<le> N" "N \<le> 29" and B: "0x8000 \<le> B" "B \<le> 0x7fffff"
    and t: "t = B * 2 ^ nat (8 * (N - 3))"
    by (simp_all add: bits_to_target_Inr Let_def N_def B_def)
  define k where "k = nat (N - 3)"
  define Bn where "Bn = nat B"
  have k: "k \<le> 26" "int (k + 3) = N" using N by (simp_all add: k_def)
  have Bn: "0x8000 \<le> Bn" "Bn \<le> 0x7fffff" "int Bn = B" using B by (simp_all add: Bn_def)
  have "nat (8 * (N - 3)) = 4 * (2 * k)" using N by (simp add: k_def)
  then have "t = B * (2 ^ 4) ^ (2 * k)" by (simp only: t power_mult)
  then have t': "t = int (Bn * 16 ^ (2 * k))" using Bn(3) by simp
  have canon: "take_bit 32 b = N * 2 ^ 24 + B"
  proof -
    have "b mod (2 ^ 24 * 256) = 2 ^ 24 * (b div 2 ^ 24 mod 256) + b mod 2 ^ 24"
      by (rule zmod_zmult2_eq) simp
    then show ?thesis by (simp add: take_bit_eq_mod N_def B_def)
  qed
  have 1: "target_to_bits t = Inr (take_bit 32 b)"
    unfolding t' canon using target_to_bits_canonical [OF Bn(1,2) k(1)] k(2) Bn(3) by simp
  have "(N * 2 ^ 24 + B) div 2 ^ 24 = N" "(N * 2 ^ 24 + B) mod 2 ^ 24 = B"
    using B by simp_all
  then have 2: "bits_to_target (take_bit 32 b) = Inr t"
    unfolding canon bits_to_target_Inr using N B t by (simp add: Let_def)
  from 1 2 show ?thesis ..
qed

text \<open>
  Claim C7 at the compact value 0x1d00ffff, whose target is \<open>MAX_TARGET\<close>.
\<close>

theorem bits_target_roundtrip_witness:
  "bits_to_target 0x1d00ffff = Inr MAX_TARGET \<and>
   target_to_bits MAX_TARGET = Inr 0x1d00ffff \<and>
   bits_to_target 0x1d00ffff = Inr MAX_TARGET"
proof -
  have h: "bits_to_target 0x1d00ffff = Inr MAX_TARGET"
    by (simp add: bits_to_target_Inr MAX_TARGET_def)
  have "take_bit 32 (0x1d00ffff :: int) = 0x1d00ffff"
    by (simp add: take_bit_eq_mod)
  with bits_target_roundtrip [OF h] h show ?thesis by simp
qed

subsection \<open>Scanning files of small records\<close>

lemma length_le_bytes [simp]: "length (le_bytes n v) = n"
  by (induction n arbitrary: v) auto

lemma ex_record_bytes:
  "ex_record v t b =
    le_bytes 4 v @ replicate 96 0 @ le_bytes 4 t @ le_bytes 4 b @ replicate 32 0 @ [0]"
  by (simp add: ex_record_def ser_char_vector_def ser_compact_size_def)

lemma length_ex_record [simp]: "length (ex_record v t b) = 141"
  by (simp add: ex_record_bytes)

lemma tiny_file_record: "tiny_file 1 (ex_record v t b)"
  by (simp add: tiny_file_def ex_record_bytes nth_append)

lemma tiny_file_Nil: "tiny_file 0 []"
  by (simp add: tiny_file_def)

lemma tiny_file_append:
  assumes "tiny_file m xs" "tiny_file n ys"
  shows "tiny_file (m + n) (xs @ ys)"
proof -
  have len: "length xs = 141 * m" "length ys = 141 * n"
    using assms by (simp_all add: tiny_file_def)
  have "(xs @ ys) ! (141 * i + 140) = 0" if "i < m + n" for i
  proof (cases "i < m")
    case True
    then have "141 * i + 140 < length xs" using len by simp
    then show ?thesis using assms(1) True by (simp add: nth_append tiny_file_def)
  next
    case False
    then have "141 * i + 140 - length xs = 141 * (i - m) + 140" "\<not> 141 * i + 140 < length xs"
      using len by (simp_all add: algebra_simps)
    moreover have "i - m < n" using that False by simp
    ultimately show ?thesis using assms(2) by (simp add: nth_append tiny_file_def)
  qed
  then show ?thesis using len by (simp add: tiny_file_def algebra_simps)
qed

lemma read_vector_size_small:
  assumes "p < length content" "unat (content ! p) < 253"
  shows "read_vector_size content p = Inr (unat (content ! p), Suc p)"
proof -
  have d: "drop p content = content ! p # drop (Suc p) content"
    using assms(1) by (simp add: Cons_nth_drop_Suc)
  have "content ! p \<noteq> 253" "content ! p \<noteq> 254" "content ! p \<noteq> 255"
    using assms(2) by auto
  then show ?thesis
    by (simp add: read_vector_size_def f_read_def d)
qed

lemma read_vector_size_eof:
  "length content \<le> p \<Longrightarrow> read_vector_size content p = Inl StructError"
  by (simp add: read_vector_size_def f_read_def)

lemma tiny_read:
  assumes "tiny_file n content" "i < n"
  shows "read_vector_size content (141 * i + BASIC_HEADER_SIZE) = Inr (0, 141 * (Suc i))"
proof -
  have "141 * i + 140 < length content" using assms by (simp add: tiny_file_def)
  moreover have "content ! (141 * i + 140) = 0" using assms by (simp add: tiny_file_def)
  ultimately show ?thesis
    using read_vector_size_small [of "141 * i + 140" content]
    by (simp add: BASIC_HEADER_SIZE_def)
qed

lemma tiny_read_end:
  assumes "tiny_file n content" "n \<le> i"
  shows "read_vector_size content (141 * i + BASIC_HEADER_SIZE) = Inl StructError"
  using assms by (intro read_vector_size_eof) (simp add: tiny_file_def)

lemma tiny_update_size_loop:
  assumes "tiny_file n content"
  shows "i \<le> n \<Longrightarrow> update_size_loop content (141 * i) sz = sz + int (n - i) - (if i < n then 1 else 0)"
proof (induction "n - i" arbitrary: i sz)
  case 0
  then have i: "i = n" by simp
  show ?case
    by (subst update_size_loop.simps) (simp add: tiny_read_end [OF assms] i)
next
  case (Suc k)
  then have i: "i < n" by simp
  have len: "length content = 141 * n" using assms by (simp add: tiny_file_def)
  have "update_size_loop content (141 * i) sz =
        update_size_loop content (141 * Suc i) (if Suc i < n then sz + 1 else sz)"
    using i by (subst update_size_loop.simps) (simp add: tiny_read [OF assms i] len)
  also have "\<dots> = (if Suc i < n then sz + 1 else sz) + int (n - Suc i) - (if Suc i < n then 1 else 0)"
    using Suc by (intro Suc.hyps(1)) auto
  finally show ?case using i by auto
qed

lemma tiny_update_size:
  "tiny_file n content \<Longrightarrow> update_size_loop content 0 0 = (if n = 0 then 0 else int n - 1)"
  using tiny_update_size_loop [of n content 0 0] by auto

lemma tiny_skip_records:
  assumes "tiny_file n content"
  shows "skip_records content (141 * i) k =
          (if k = 0 \<or> i + k < n then Inr (141 * (i + k))
           else if i < n then Inl OutOfFile else Inl StructError)"
proof (induction k arbitrary: i)
  case 0
  then show ?case by simp
next
  case (Suc k)
  have len: "length content = 141 * n" using assms by (simp add: tiny_file_def)
  show ?case
  proof (cases "i < n")
    case True
    show ?thesis
      using True Suc.IH [of "Suc i"]
      by (auto simp: tiny_read [OF assms True] ebind_def len)
  next
    case False
    then show ?thesis
      by (simp add: tiny_read_end [OF assms] ebind_def)
  qed
qed

lemma tiny_fork: "tiny_file 2 fork_file"
proof -
  have "tiny_file (1 + 1) fork_file"
    unfolding fork_file_def by (intro tiny_file_append tiny_file_record)
  then show ?thesis by (simp only: one_add_one)
qed

lemma tiny_root: "tiny_file 3 root_file"
proof -
  have "tiny_file (1 + (1 + 1)) root_file"
    unfolding root_file_def by (intro tiny_file_append tiny_file_record)
  moreover have "(1::nat) + (1 + 1) = 3" by simp
  ultimately show ?thesis by (simp only:)
qed

lemma tiny_fork3: "tiny_file 3 (fork_file @ ex_record v t b)"
proof -
  have "tiny_file (2 + 1) (fork_file @ ex_record v t b)"
    by (intro tiny_file_append tiny_file_record tiny_fork)
  moreover have "(2::nat) + 1 = 3" by simp
  ultimately show ?thesis by (simp only:)
qed

lemma tiny_all: "tiny_file 6 (root_file @ fork_file @ ex_record v t b)"
proof -
  have "tiny_file (3 + 3) (root_file @ fork_file @ ex_record v t b)"
    by (intro tiny_file_append tiny_root tiny_fork3)
  moreover have "(3::nat) + 3 = 6" by simp
  ultimately show ?thesis by (simp only:)
qed

lemma tiny_h2o:
  assumes "tiny_file n content" "0 < k" "i + k < n"
  shows "height_to_offset content pos (int k) (141 * i) = Inr pos"
  using assms by (simp add: height_to_offset_def tiny_skip_records [OF assms(1)] ebind_def)

lemma h2o_0: "height_to_offset content pos 0 start = Inr pos"
  by (simp add: height_to_offset_def ebind_def)

lemma tiny_size [simp]: "tiny_file n content \<Longrightarrow> length content = 141 * n"
  by (simp add: tiny_file_def)

lemma tiny_skip_plain:
  assumes "tiny_file n content"
  shows "i + k \<le> n \<Longrightarrow> skip_plain content (141 * i) k = Inr (141 * (i + k))"
proof (induction k arbitrary: i)
  case 0
  then show ?case by simp
next
  case (Suc k)
  then have i: "i < n" by simp
  show ?case using Suc.IH [of "Suc i"] Suc.prems
    by (simp add: tiny_read [OF assms i] ebind_def)
qed

lemma tiny_file_replicate: "tiny_file n (concat (replicate n (ex_record v t b)))"
proof (induction n)
  case 0
  then show ?case by (simp add: tiny_file_Nil)
next
  case (Suc n)
  have "tiny_file (1 + n) (ex_record v t b @ concat (replicate n (ex_record v t b)))"
    by (intro tiny_file_append tiny_file_record Suc)
  then show ?case by simp
qed

lemma tiny_long: "tiny_file 2017 long_file"
proof -
  have "tiny_file (2015 + (1 + 1)) long_file"
    unfolding long_file_def by (intro tiny_file_append tiny_file_record tiny_file_replicate)
  moreover have "(2015::nat) + (1 + 1) = 2017" by simp
  ultimately show ?thesis by (simp only:)
qed

subsection \<open>The size of a file\<close>

text \<open>
  Claim C4, at a file of three complete records and nothing else: \<open>update_size\<close>
  sets the size to 2. A record is counted only when the position after it is below the
  end of the file, so the last complete record of a file is never counted.
\<close>

theorem update_size_drops_last_record:
  "files ex_state (path_of (objs ex_state 10)) = Some root_file \<and>
   length root_file = 3 * 141 \<and>
   size_c (objs (update_size ex_state 10) 10) = 2"
proof -
  have o: "objs ex_state 10 = seg 0 None 2" by (simp add: ex_state_def)
  have f: "files ex_state (path_of (objs ex_state 10)) = Some root_file"
    by (simp add: o seg_def path_of_def) (simp add: ex_state_def)
  show ?thesis
    using tiny_update_size [OF tiny_root] tiny_size [OF tiny_root]
    by (simp add: f update_size_def upd_obj_def Let_def)
qed

subsection \<open>Offsets\<close>

lemma height_to_offset_result:
  "height_to_offset content pos hgt start = Inr off \<Longrightarrow> off = pos"
  by (auto simp: height_to_offset_def ebind_def split: sum.splits)

text \<open>
  Claim C3, at a file of three records of 141 bytes, open at position 0: the offset of
  the record one past the start is 141, and one past offset 141 it is 282;
  \<open>_height_to_offset\<close> returns 0 both times, the position the file had at the call.
\<close>

theorem height_to_offset_returns_position:
  "height_to_offset root_file 0 1 0 = Inr 0 \<and> height_to_offset root_file 0 1 141 = Inr 0"
  using tiny_h2o [OF tiny_root, of 1 0 0] tiny_h2o [OF tiny_root, of 1 1 0] by simp

subsection \<open>The example environment and codec\<close>

lemma env0_simps:
  "Hash env0 = (\<lambda>bs. 1 # replicate 31 0)" "uint256_from_bytes env0 = le_val"
  "is_gbp_valid env0 = (\<lambda>ser n sol. True)"
  "b64decode env0 = (\<lambda>s. if s = [] then Inr [] else Inl Base64Error)"
  "b64encode env0 = (\<lambda>bs. [])" "TESTNET env0 = False" "CHECKPOINTS env0 = []"
  "GENESIS env0 = zero_hash" "frames env0 = 1000"
  by (simp_all add: env0_def)

lemma hexval_0 [simp]: "hexval (CHR ''0'') = Some 0"
  by code_simp

lemma bfh_zeros: "bfh (replicate (2 * n) (CHR ''0'')) = Inr (replicate n 0)"
  by (induction n) (simp_all add: ebind_def)

lemma str_to_hash_zero: "str_to_hash (Some zero_hash) = Inr (replicate 32 0)"
  using bfh_zeros [of 32] by (simp add: str_to_hash_def zero_hash_def ebind_def)

lemma serialize_ex_header:
  assumes "0 \<le> v" "v < 2 ^ 31" "0 \<le> t" "t < 2 ^ 32" "0 \<le> b" "b < 2 ^ 32"
  shows "serialize_header env0 (ex_header v t b h) = Inr (ex_record v t b)"
  using assms
  by (simp add: serialize_header_def ex_header_def ex_record_bytes env0_def pack_i_def pack_I_def
      str_to_hash_zero ebind_def ser_char_vector_def ser_compact_size_def
      replicate_add [symmetric])

lemma le_val_le_bytes: "le_val (le_bytes n v) = v mod 256 ^ n"
proof (induction n arbitrary: v)
  case 0
  then show ?case by simp
next
  case (Suc n)
  have "uint (word_of_int v :: byte) = v mod 256"
    by (simp add: uint_word_of_int take_bit_eq_mod)
  moreover have "v mod (256 * 256 ^ n) = 256 * (v div 256 mod 256 ^ n) + v mod 256"
    by (rule zmod_zmult2_eq) simp
  ultimately show ?case by (simp add: Suc.IH)
qed

lemma le_val_zeros: "le_val (replicate n 0) = 0"
  by (induction n) simp_all

lemma bh2u_zeros: "bh2u (replicate n 0) = replicate (2 * n) (CHR ''0'')"
  by (induction n) (simp_all add: bh2u_def)

lemma hash_to_str_zeros: "hash_to_str (replicate 32 0) = zero_hash"
  using bh2u_zeros [of 32] by (simp add: hash_to_str_def zero_hash_def)

lemma f_read_mid:
  "length a = p \<Longrightarrow> length b = n \<Longrightarrow> f_read (a @ b @ c) p n = (b, p + n)"
  by (simp add: f_read_def)

lemma deserialize_ex_record:
  "deserialize_header env0 (pre @ ex_record v t b @ post) (length pre) h =
    Inr (ex_header (v mod 2 ^ 32) (t mod 2 ^ 32) (b mod 2 ^ 32) h, length pre + 141)"
proof -
  let ?c = "pre @ ex_record v t b @ post"
  let ?p = "length pre"
  have 1: "f_read ?c ?p 4 = (le_bytes 4 v, ?p + 4)"
    using f_read_mid [of pre ?p "le_bytes 4 v" 4 "replicate 96 0 @ le_bytes 4 t @ le_bytes 4 b @ replicate 32 0 @ [0] @ post"]
    by (simp add: ex_record_bytes)
  have z: "replicate 96 (0::byte) = replicate 32 0 @ replicate 32 0 @ replicate 32 0"
    by (simp add: replicate_add [symmetric])
  have 2: "f_read ?c (?p + 4) 32 = (replicate 32 0, ?p + 36)"
    using f_read_mid [of "pre @ le_bytes 4 v" "?p + 4" "replicate 32 0" 32
        "replicate 32 0 @ replicate 32 0 @ le_bytes 4 t @ le_bytes 4 b @ replicate 32 0 @ [0] @ post"]
    by (simp add: ex_record_bytes z)
  have 3: "f_read ?c (?p + 36) 32 = (replicate 32 0, ?p + 68)"
    using f_read_mid [of "pre @ le_bytes 4 v @ replicate 32 0" "?p + 36" "replicate 32 0" 32
        "replicate 32 0 @ le_bytes 4 t @ le_bytes 4 b @ replicate 32 0 @ [0] @ post"]
    by (simp add: ex_record_bytes z)
  have 4: "f_read ?c (?p + 68) 32 = (replicate 32 0, ?p + 100)"
    using f_read_mid [of "pre @ le_bytes 4 v @ replicate 32 0 @ replicate 32 0" "?p + 68" "replicate 32 0" 32
        "le_bytes 4 t @ le_bytes 4 b @ replicate 32 0 @ [0] @ post"]
    by (simp add: ex_record_bytes z)
  have 5: "f_read ?c (?p + 100) 4 = (le_bytes 4 t, ?p + 104)"
    using f_read_mid [of "pre @ le_bytes 4 v @ replicate 96 0" "?p + 100" "le_bytes 4 t" 4
        "le_bytes 4 b @ replicate 32 0 @ [0] @ post"]
    by (simp add: ex_record_bytes)
  have 6: "f_read ?c (?p + 104) 4 = (le_bytes 4 b, ?p + 108)"
    using f_read_mid [of "pre @ le_bytes 4 v @ replicate 96 0 @ le_bytes 4 t" "?p + 104" "le_bytes 4 b" 4
        "replicate 32 0 @ [0] @ post"]
    by (simp add: ex_record_bytes)
  have 7: "f_read ?c (?p + 108) 32 = (replicate 32 0, ?p + 140)"
    using f_read_mid [of "pre @ le_bytes 4 v @ replicate 96 0 @ le_bytes 4 t @ le_bytes 4 b" "?p + 108" "replicate 32 0" 32
        "[0] @ post"]
    by (simp add: ex_record_bytes)
  have n: "?c ! (?p + 140) = 0" "?p + 140 < length ?c"
    by (simp_all add: nth_append ex_record_bytes)
  have 8: "deser_char_vector ?c (?p + 140) = Inr ([], ?p + 141)"
    using read_vector_size_small [of "?p + 140" ?c] n
    by (simp add: deser_char_vector_def f_read_def)
  show ?thesis
    by (simp add: deserialize_header_def 1 2 3 4 5 6 7 8 unpack_I_def ebind_def
        le_val_le_bytes hash_to_str_zeros ex_header_def env0_def)
qed

text \<open>
  Claim C6, at a header of version -1: \<open>serialize_header\<close> packs the version as a
  signed number, \<open>deserialize_header\<close> unpacks it as unsigned, and the header read
  back has version 4294967295.
\<close>

theorem roundtrip_negative_version:
  "ebind (serialize_header env0 (ex_header (- 1) 0 0 7)) (\<lambda>bs. deserialize_header env0 bs 0 7)
    = Inr (ex_header 4294967295 0 0 7, 141)"
proof -
  have "serialize_header env0 (ex_header (- 1) 0 0 7) = Inr (ex_record (- 1) 0 0)"
    by (simp add: serialize_header_def ex_header_def ex_record_bytes env0_def pack_i_def pack_I_def
      str_to_hash_zero ebind_def ser_char_vector_def ser_compact_size_def
      replicate_add [symmetric])
  then show ?thesis
    using deserialize_ex_record [of "[]" "- 1" 0 0 "[]" 7] by (simp add: ebind_def)
qed

lemma zeros128: "concat (replicate 64 ''00'') = replicate 128 (CHR ''0'')"
  by code_simp

text \<open>
  Claim C10: for a header whose \<open>prev_block_hash\<close> is \<open>None\<close>, \<open>hash_header\<close>
  leaves the caller's header with \<open>prev_block_hash\<close> set to \<open>'00'*64\<close>, which is 128
  characters \<open>0\<close>, not 64; for \<open>None\<close> in place of a header nothing is assigned.
\<close>

theorem hash_header_sets_128_zeros:
  "snd (hash_header E (Some (h\<lparr>prev_block_hash := None\<rparr>))) =
     Some (h\<lparr>prev_block_hash := Some (replicate 128 (CHR ''0''))\<rparr>)
   \<and> snd (hash_header E None) = None"
  by (simp add: hash_header_def zeros128 Let_def)

lemma hash_header_None: "hash_header E None = (Inr (replicate 64 (CHR ''0'')), None)"
  by (simp add: hash_header_def)

subsection \<open>Reorganisation at the example state\<close>

lemma file_write_end: "file_write content (length content) data = content @ data"
  by (simp add: file_write_def)

lemma path_of_size [simp]: "path_of (b\<lparr>size_c := n\<rparr>) = path_of b"
  by (simp add: path_of_def split: option.splits)

lemma write_data_tiny:
  assumes f: "files s (path_of (objs s r)) = Some content"
    and c: "tiny_file n content" and d: "tiny_file m data"
    and k: "delta \<le> 0 \<or> nat delta < n"
  shows "write_data s r data delta False =
    Inr (s\<lparr>files := (files s)(path_of (objs s r) \<mapsto> content @ data),
           objs := (objs s)(r := (objs s r)\<lparr>size_c := (if n + m = 0 then 0 else int (n + m) - 1)\<rparr>)\<rparr>)"
proof -
  have h: "height_to_offset content (length content) delta 0 = Inr (length content)"
  proof (cases "delta \<le> 0")
    case True
    then show ?thesis by (simp add: height_to_offset_def ebind_def)
  next
    case False
    with k have "0 < nat delta" "0 + nat delta < n" by auto
    from tiny_h2o [OF c this, of "length content"] False show ?thesis by simp
  qed
  have t: "update_size_loop (content @ data) 0 0 = (if n + m = 0 then 0 else int (n + m) - 1)"
    using tiny_update_size [OF tiny_file_append [OF c d]] by simp
  show ?thesis
    unfolding write_data_def Let_def f option.case h ebind_def sum.case
    by (simp add: file_write_end update_size_def upd_obj_def t Let_def)
qed

lemma ex_write1:
  "write_data ex_state 11 (ex_record 6 0 0) 1 False =
    Inr (ex_state\<lparr>files := (files ex_state)(ForkFile 0 1 \<mapsto> fork_file @ ex_record 6 0 0),
           objs := (objs ex_state)(11 := seg 1 (Some 0) 2)\<rparr>)"
proof -
  have p: "path_of (objs ex_state 11) = ForkFile 0 1"
    by (simp add: ex_state_def seg_def path_of_def)
  have f: "files ex_state (path_of (objs ex_state 11)) = Some fork_file"
    unfolding p by (simp add: ex_state_def)
  show ?thesis
    using write_data_tiny [OF f tiny_fork tiny_file_record, of 1 6 0 0]
    by (simp add: p) (simp add: ex_state_def seg_def path_of_def)
qed

lemma ex1_simps:
  "objs ex_state1 11 = seg 1 (Some 0) 2" "objs ex_state1 10 = seg 0 None 2"
  "blockchains ex_state1 = [(0, 10), (1, 11)]"
  "files ex_state1 MainFile = Some root_file"
  "files ex_state1 (ForkFile 0 1) = Some (fork_file @ ex_record 6 0 0)"
  by (simp_all add: ex_state1_def ex_state_def)

lemma ex_swap_write_a:
  "write_data ex_state1 11 [] 0 False = Inr ex_state1"
proof -
  have p: "path_of (objs ex_state1 11) = ForkFile 0 1"
    by (simp add: ex1_simps seg_def path_of_def)
  have f: "files ex_state1 (path_of (objs ex_state1 11)) = Some (fork_file @ ex_record 6 0 0)"
    unfolding p by (simp add: ex1_simps)
  show ?thesis
    using write_data_tiny [OF f tiny_fork3 tiny_file_Nil, of 0]
    by (simp add: p) (simp add: ex_state1_def ex_state_def seg_def path_of_def fun_upd_idem_iff)
qed

lemma ex_swap_write_b:
  "write_data ex_state1 10 (fork_file @ ex_record 6 0 0) 1 False = Inr ex_state2"
proof -
  have p: "path_of (objs ex_state1 10) = MainFile"
    by (simp add: ex1_simps seg_def path_of_def)
  have f: "files ex_state1 (path_of (objs ex_state1 10)) = Some root_file"
    unfolding p by (simp add: ex1_simps)
  show ?thesis
    using write_data_tiny [OF f tiny_root tiny_fork3, of 1 6 0 0]
    by (simp add: p ex_state2_def) (simp add: ex_state1_def ex_state_def seg_def path_of_def)
qed

lemma ex2_simps:
  "objs ex_state2 11 = seg 1 (Some 0) 2" "objs ex_state2 10 = seg 0 None 5"
  "blockchains ex_state2 = [(0, 10), (1, 11)]"
  "files ex_state2 MainFile = Some (root_file @ fork_file @ ex_record 6 0 0)"
  "files ex_state2 (ForkFile 0 1) = Some (fork_file @ ex_record 6 0 0)"
  by (simp_all add: ex_state2_def ex1_simps)

lemma ex_swap:
  "case swap_with_parent ex_state1 11 of
     Inl x \<Rightarrow> False
   | Inr s' \<Rightarrow>
       map_of (blockchains s') 1 = Some 10 \<and> path_of (objs s' 10) = ForkFile 0 1 \<and>
       files s' (ForkFile 0 1) = Some (fork_file @ ex_record 6 0 0) \<and>
       map_of (blockchains s') 0 = Some 11 \<and> path_of (objs s' 11) = MainFile \<and>
       files s' MainFile = Some (root_file @ fork_file @ ex_record 6 0 0)"
proof -
  have o: "height_to_offset root_file 0 1 0 = Inr 0"
    using tiny_h2o [OF tiny_root, of 1 0 0] by simp
  show ?thesis
    unfolding swap_with_parent_def
    by (simp add: ex1_simps Let_def seg_def parent_def height_def ebind_st_def open_read_def
        path_of_def o ex_swap_write_a [unfolded seg_def path_of_def]
        ex_swap_write_b [unfolded seg_def path_of_def] store_old_paths_def upd_obj_def ex2_simps)
qed

text \<open>
  Claim C2, at the example state: the parent's branch from height 1 has size 1, the fork
  has size 1 and receives the header of height 2. \<open>save_header\<close> succeeds and swaps.
  Afterwards the registry entry at 1, the fork's checkpoint, is the former parent object,
  whose path is now the fork's file, and that file holds the fork's own three records
  (not the parent's records of heights 1 and 2); the entry at 0 is the fork object, whose
  path is the main file, and that file holds the parent's three records followed by the
  fork's three.
\<close>

theorem reorg_example:
  "case save_header env0 ex_state 11 (ex_header 6 0 0 2) of
     Inl x \<Rightarrow> False
   | Inr s' \<Rightarrow>
       map_of (blockchains s') 1 = Some 10 \<and> path_of (objs s' 10) = ForkFile 0 1 \<and>
       files s' (ForkFile 0 1) = Some (fork_file @ ex_record 6 0 0) \<and>
       map_of (blockchains s') 0 = Some 11 \<and> path_of (objs s' 11) = MainFile \<and>
       files s' MainFile = Some (root_file @ fork_file @ ex_record 6 0 0)"
proof -
  have ser: "serialize_header env0 (ex_header 6 0 0 2) = Inr (ex_record 6 0 0)"
    by (rule serialize_ex_header) simp_all
  have d: "block_height (ex_header 6 0 0 2) - checkpoint (objs ex_state 11) = 1"
    "size_c (objs ex_state 11) = 1"
    by (simp_all add: ex_header_def ex_state_def seg_def)
  have "save_header env0 ex_state 11 (ex_header 6 0 0 2) = swap_with_parent ex_state1 11"
    by (simp add: save_header_def Let_def ser d ex_write1 ebind_st_def ex_state1_def)
  then show ?thesis using ex_swap by simp
qed

subsection \<open>Chunks\<close>

lemma verify_chunk_raises: "\<exists>e. verify_chunk E s r index data = Inl e"
  by (cases "read_header E s (frames E) r (index * 2016 - 1)")
     (auto simp: verify_chunk_def py_range_def ebind_def)

text \<open>
  Claim C5: \<open>connect_chunk\<close> returns \<open>False\<close> and leaves the state as it was, for
  every period index and every chunk: \<open>verify_chunk\<close> always raises, so nothing is
  saved.
\<close>

theorem connect_chunk_false: "connect_chunk E s r idx hexdata = (False, s)"
proof (cases "bfh hexdata")
  case (Inl e)
  then show ?thesis by (simp add: connect_chunk_def ebind_st_def)
next
  case (Inr data)
  obtain e where "verify_chunk E s r idx data = Inl e"
    using verify_chunk_raises by blast
  with Inr show ?thesis by (simp add: connect_chunk_def ebind_st_def)
qed

subsection \<open>Verifying a header\<close>

lemma sha256_ex:
  assumes "0 \<le> v" "v < 2 ^ 31" "0 \<le> t" "t < 2 ^ 32" "0 \<le> b" "b < 2 ^ 32"
  shows "sha256_header env0 (ex_header v t b h) = Inr 1"
proof -
  have "le_val (1 # replicate 31 0) = 1 + 256 * le_val (le_bytes 31 0)"
    by code_simp
  then have "le_val (1 # replicate 31 0) = 1" by (simp add: le_val_le_bytes)
  then show ?thesis
    by (simp add: sha256_header_def serialize_ex_header [OF assms] ebind_def env0_simps)
qed

lemma verify_ex:
  "verify_header env0 (ex_header 1 0 0x1d00ffff 5) None tg = Inr ()"
proof -
  have s: "sha256_header env0 (ex_header 1 0 0x1d00ffff 5) = Inr 1"
    by (rule sha256_ex) simp_all
  have ser: "serialize_header env0 (ex_header 1 0 0x1d00ffff 5) = Inr (ex_record 1 0 0x1d00ffff)"
    by (rule serialize_ex_header) simp_all
  have b: "bits_to_target (bits (ex_header 1 0 0x1d00ffff 5)) = Inr MAX_TARGET"
    by (simp add: ex_header_def bits_to_target_Inr MAX_TARGET_def)
  have f: "prev_block_hash (ex_header 1 0 0x1d00ffff 5) = Some (replicate 64 (CHR ''0''))"
    "nonce (ex_header 1 0 0x1d00ffff 5) = zero_hash"
    "n_solution (ex_header 1 0 0x1d00ffff 5) = []"
    by (simp_all add: ex_header_def zero_hash_def)
  show ?thesis
    unfolding verify_header_def hash_header_None fst_conv s b ser f str_to_hash_zero
    by (simp add: ebind_def MAX_TARGET_def env0_simps)
qed

text \<open>
  Claim C1 as stated fails: with a proof-of-work hash of 1 and a supplied target of 0 the
  hash exceeds the supplied target, and \<open>verify_header\<close> succeeds.
\<close>

theorem verify_header_ignores_target_example:
  "sha256_header env0 (ex_header 1 0 0x1d00ffff 5) = Inr 1 \<and> (1::int) > 0 \<and>
   verify_header env0 (ex_header 1 0 0x1d00ffff 5) None 0 = Inr ()"
proof -
  have "sha256_header env0 (ex_header 1 0 0x1d00ffff 5) = Inr 1"
    by (rule sha256_ex) simp_all
  then show ?thesis using verify_ex [of 0] by simp
qed

lemma serialize_header_parts:
  assumes "serialize_header E h = Inr ser"
  shows "\<exists>nb sol. str_to_hash (Some (nonce h)) = Inr nb \<and> b64decode E (n_solution h) = Inr sol"
  using assms by (auto simp: serialize_header_def ebind_def split: sum.splits)

text \<open>
  Claim C1, amended. When the two hashes can be computed, \<open>verify_header\<close> fails
  with the linkage error if the hash of the previous header differs from the header's
  \<open>prev_block_hash\<close>; otherwise with the error of \<open>bits_to_target\<close> if the header's
  \<open>bits\<close> are out of range; otherwise it fails when the proof-of-work hash exceeds the
  target decoded from the header's own \<open>bits\<close>; otherwise with the invalid-proof
  error exactly when the verifier rejects; otherwise it succeeds. The \<open>target\<close>
  argument plays no part.
\<close>

theorem verify_header_checks:
  assumes "fst (hash_header E prev) = Inr ph"
    and "serialize_header E h = Inr ser"
  shows "\<exists>nb sol.
    str_to_hash (Some (nonce h)) = Inr nb \<and> b64decode E (n_solution h) = Inr sol \<and>
    verify_header E h prev tg =
      (if Some ph \<noteq> prev_block_hash h then Inl PrevHashMismatch
       else case bits_to_target (bits h) of
         Inl e \<Rightarrow> Inl e
       | Inr t \<Rightarrow>
           if uint256_from_bytes E (Hash E ser) > t then Inl TypeError
           else if is_gbp_valid E ser (uint256_from_bytes E nb) sol then Inr ()
           else Inl EquihashInvalid)"
proof -
  obtain nb sol where p: "str_to_hash (Some (nonce h)) = Inr nb" "b64decode E (n_solution h) = Inr sol"
    using serialize_header_parts [OF assms(2)] by blast
  have "verify_header E h prev tg =
      (if Some ph \<noteq> prev_block_hash h then Inl PrevHashMismatch
       else case bits_to_target (bits h) of
         Inl e \<Rightarrow> Inl e
       | Inr t \<Rightarrow>
           if uint256_from_bytes E (Hash E ser) > t then Inl TypeError
           else if is_gbp_valid E ser (uint256_from_bytes E nb) sol then Inr ()
           else Inl EquihashInvalid)"
    using assms p
    by (simp add: verify_header_def sha256_header_def ebind_def split: sum.splits)
  with p show ?thesis by blast
qed

text \<open>
  The amended claim C1 at a concrete header, whatever the supplied target.
\<close>

theorem verify_header_checks_witness:
  "verify_header env0 (ex_header 1 0 0x1d00ffff 5) None 12345 = Inr ()"
proof -
  have 1: "fst (hash_header env0 None) = Inr zero_hash"
    by (simp add: hash_header_def zero_hash_def)
  have 2: "serialize_header env0 (ex_header 1 0 0x1d00ffff 5) = Inr (ex_record 1 0 0x1d00ffff)"
    by (rule serialize_ex_header) simp_all
  have 3: "str_to_hash (Some (nonce (ex_header 1 0 0x1d00ffff 5))) = Inr (replicate 32 0)"
    by (simp add: ex_header_def str_to_hash_zero)
  have 4: "b64decode env0 (n_solution (ex_header 1 0 0x1d00ffff 5)) = Inr []"
    by (simp add: ex_header_def env0_simps)
  have 5: "le_val (replicate 31 0) = 0" by (rule le_val_zeros)
  have 6: "bits_to_target (bits (ex_header 1 0 0x1d00ffff 5)) = Inr MAX_TARGET"
    by (simp add: ex_header_def bits_to_target_Inr MAX_TARGET_def)
  have 7: "prev_block_hash (ex_header 1 0 0x1d00ffff 5) = Some zero_hash"
    by (simp add: ex_header_def)
  show ?thesis
    using verify_header_checks [OF 1 2, of 12345]
    by (simp add: 3 4 6 7 env0_simps 5 MAX_TARGET_def)
qed

subsection \<open>Reading headers and retargeting\<close>

lemma read_header_pos:
  "0 < n \<Longrightarrow> read_header E s n r hgt = read_header E s (Suc (n - 1)) r hgt"
  by simp

lemma read_header_beyond:
  assumes "0 < n" "parent_id (objs s r) \<noteq> Some (checkpoint (objs s r))"
    and "0 \<le> hgt" "checkpoint (objs s r) \<le> hgt" "height (objs s r) < hgt"
  shows "read_header E s n r hgt = Inr None"
proof -
  obtain k where "n = Suc k" using assms(1) by (cases n) auto
  then show ?thesis using assms by (simp add: Let_def)
qed

lemma read_header_own:
  assumes "0 < n" "parent_id (objs s r) \<noteq> Some (checkpoint (objs s r))"
    and "0 \<le> hgt" "checkpoint (objs s r) \<le> hgt" "hgt \<le> height (objs s r)"
    and "files s (path_of (objs s r)) = Some content"
  shows "read_header E s n r hgt =
    ebind (skip_plain content 0 (nat (hgt - checkpoint (objs s r)))) (\<lambda>p.
    ebind (deserialize_header E content p hgt) (\<lambda>(h, p'). Inr (Some h)))"
proof -
  obtain k where "n = Suc k" using assms(1) by (cases n) auto
  then show ?thesis using assms by (simp add: Let_def)
qed

text \<open>
  Claim C8. Off the test network, for a period index at least 0 that the checkpoints do
  not cover, when the first and the last header of the period can be read and the last
  header's \<open>bits\<close> decode to \<open>tg\<close>: \<open>get_target\<close> returns
  \<open>min MAX_TARGET (tg * a div T)\<close> where \<open>T\<close> is 14 days in seconds and \<open>a\<close> is the
  difference of the two timestamps clamped into \<open>[T div 4, T * 4]\<close>; \<open>a\<close> is within
  these bounds whatever the timestamps.
\<close>

theorem get_target_retarget:
  assumes "\<not> TESTNET E" "0 \<le> index" "int (length (CHECKPOINTS E)) \<le> index"
    and "read_header E s (frames E) r (index * 2016) = Inr (Some f)"
    and "read_header E s (frames E) r (index * 2016 + 2015) = Inr (Some l)"
    and "bits_to_target (bits l) = Inr tg"
  shows "let T = 14 * 24 * 60 * 60;
             a = min (max (timestamp l - timestamp f) (T div 4)) (T * 4)
         in get_target E s r index = Inr (min MAX_TARGET (tg * a div T))
            \<and> T div 4 \<le> a \<and> a \<le> T * 4"
  using assms by (simp add: get_target_def ebind_def Let_def)

lemma long_reads:
  "read_header env0 long_state (frames env0) 10 (0 * 2016) = Inr (Some (ex_header 1 0 0 0))"
  "read_header env0 long_state (frames env0) 10 (0 * 2016 + 2015) = Inr (Some (ex_header 2 5000000 0x1c00ffff 2015))"
proof -
  have o: "objs long_state 10 = seg 0 None 2016" by (simp add: long_state_def)
  have f: "files long_state (path_of (objs long_state 10)) = Some long_file"
    by (simp add: o seg_def path_of_def) (simp add: long_state_def)
  have "replicate 2015 (ex_record 1 0 0) = ex_record 1 0 0 # replicate 2014 (ex_record 1 0 0)"
    using replicate_Suc [of 2014 "ex_record 1 0 0"] by simp
  then have l0: "long_file = ex_record 1 0 0 @
      (concat (replicate 2014 (ex_record 1 0 0)) @ ex_record 2 5000000 0x1c00ffff @ ex_record 3 0 0)"
    by (simp add: long_file_def)
  have d0: "deserialize_header env0 long_file 0 0 = Inr (ex_header 1 0 0 0, 141)"
    using deserialize_ex_record [of "[]" 1 0 0
        "concat (replicate 2014 (ex_record 1 0 0)) @ ex_record 2 5000000 0x1c00ffff @ ex_record 3 0 0" 0]
    by (simp add: l0 [symmetric])
  show "read_header env0 long_state (frames env0) 10 (0 * 2016) = Inr (Some (ex_header 1 0 0 0))"
    using read_header_own [of 1000 long_state 10 0 long_file env0] f
    by (simp add: o seg_def height_def ebind_def env0_simps d0)
  have len: "length (concat (replicate 2015 (ex_record 1 0 0))) = 141 * 2015"
    using tiny_size [OF tiny_file_replicate [of 2015 1 0 0]] .
  have d1: "deserialize_header env0 long_file (141 * 2015) 2015 =
      Inr (ex_header 2 5000000 0x1c00ffff 2015, 141 * 2015 + 141)"
    using deserialize_ex_record [of "concat (replicate 2015 (ex_record 1 0 0))" 2 5000000 "0x1c00ffff" "ex_record 3 0 0" 2015]
    unfolding len long_file_def [symmetric] by simp
  have sk: "skip_plain long_file 0 2015 = Inr (141 * 2015)"
    using tiny_skip_plain [OF tiny_long, of 0 2015] by simp
  show "read_header env0 long_state (frames env0) 10 (0 * 2016 + 2015) = Inr (Some (ex_header 2 5000000 0x1c00ffff 2015))"
    using read_header_own [of 1000 long_state 10 2015 long_file env0] f d1 sk
    by (simp add: o seg_def height_def ebind_def env0_simps)
qed

text \<open>
  Claim C8 at the file of 2017 records: the timespan 5000000 is clamped to four times
  14 days, and the target is multiplied by 4.
\<close>

theorem get_target_retarget_witness:
  "get_target env0 long_state 10 0 = Inr (0xffff * 2 ^ 202)"
proof -
  have b: "bits_to_target (bits (ex_header 2 5000000 0x1c00ffff 2015)) = Inr (0xffff * 2 ^ 200)"
    by (simp add: ex_header_def bits_to_target_Inr)
  have c: "\<not> TESTNET env0" "(0::int) \<le> 0" "int (length (CHECKPOINTS env0)) \<le> 0"
    by (simp_all add: env0_simps)
  show ?thesis
    using get_target_retarget [OF c long_reads b]
    by (simp add: Let_def ex_header_def MAX_TARGET_def)
qed

subsection \<open>Connecting a header\<close>

lemma can_connect_ex:
  "can_connect env0 ex_state 10 (Dict (ex_header 9 0 0 2016)) False = Inl AttributeError"
  "get_target env0 ex_state 10 (block_height (ex_header 9 0 0 2016) div 2016 - 1) = Inl AttributeError"
proof -
  have o: "objs ex_state 10 = seg 0 None 2" by (simp add: ex_state_def)
  have f: "files ex_state (path_of (objs ex_state 10)) = Some root_file"
    by (simp add: o seg_def path_of_def) (simp add: ex_state_def)
  have r1: "read_header env0 ex_state 1000 10 2015 = Inr None"
    by (rule read_header_beyond) (simp_all add: o seg_def height_def)
  have r0: "read_header env0 ex_state 1000 10 0 = Inr (Some (ex_header 1 0 0 0))"
    using read_header_own [of 1000 ex_state 10 0 root_file env0] f
      deserialize_ex_record [of "[]" 1 0 0 "ex_record 2 0 0 @ ex_record 3 0 0" 0]
    by (simp add: o seg_def height_def ebind_def root_file_def)
  show g: "get_target env0 ex_state 10 (block_height (ex_header 9 0 0 2016) div 2016 - 1) = Inl AttributeError"
    by (simp add: get_target_def env0_simps ex_header_def r0 r1 ebind_def)
  have p: "prev_block_hash (ex_header 9 0 0 2016) = Some (replicate 64 (CHR ''0''))"
    "block_height (ex_header 9 0 0 2016) = 2016"
    by (simp_all add: ex_header_def zero_hash_def)
  show "can_connect env0 ex_state 10 (Dict (ex_header 9 0 0 2016)) False = Inl AttributeError"
    using g unfolding can_connect_def pyheader.case p Let_def
    by (simp add: env0_simps r1 hash_header_None ebind_def)
qed

text \<open>
  Claim C9 as stated fails: for a header of height 2016 linked to no predecessor, with the
  height check off, \<open>get_target\<close> finds no header at height 2015 and its
  AttributeError leaves \<open>can_connect\<close>.
\<close>

theorem can_connect_propagates_example:
  "can_connect env0 ex_state 10 (Dict (ex_header 9 0 0 2016)) False = Inl AttributeError"
  by (rule can_connect_ex)

text \<open>
  Claim C9, amended. An exception leaves \<open>can_connect\<close> exactly in these cases: the
  header is \<open>None\<close> (TypeError) or has no \<open>block_height\<close> (KeyError); its
  \<open>block_height\<close> is \<open>None\<close> and the height is checked (TypeError); the height check
  passes, the height is 0 and hashing the header raises; or the height check passes,
  the height is not 0, the previous header was read and hashed and its hash is the
  header's \<open>prev_block_hash\<close>, and \<open>get_target\<close> raises. In each case the exception
  that leaves is the one raised there. An exception of the lookup or the hash of the
  previous header, and an exception of \<open>verify_header\<close>, is swallowed and the result is
  \<open>False\<close>.
\<close>

theorem can_connect_exceptions:
  "(can_connect E s r a ch = Inl e \<longleftrightarrow>
      (a = PyNone \<and> e = TypeError) \<or>
      (a = NoHeightKey \<and> e = KeyError) \<or>
      (a = NoneHeight \<and> ch \<and> e = TypeError) \<or>
      (\<exists>h. a = Dict h \<and> \<not> (ch \<and> height (objs s r) \<noteq> block_height h - 1) \<and>
         (if block_height h = 0 then fst (hash_header E (Some h)) = Inl e
          else (\<exists>p ph. read_header E s (frames E) r (block_height h - 1) = Inr p \<and>
                  fst (hash_header E p) = Inr ph \<and> prev_block_hash h = Some ph) \<and>
               get_target E s r (block_height h div 2016 - 1) = Inl e)))
   \<and>
   (block_height h \<noteq> 0 \<and>
      (read_header E s (frames E) r (block_height h - 1) = Inl e1 \<or>
       (\<exists>p. read_header E s (frames E) r (block_height h - 1) = Inr p \<and>
            fst (hash_header E p) = Inl e1))
      \<longrightarrow> can_connect E s r (Dict h) ch = Inr False)
   \<and>
   (block_height h \<noteq> 0 \<and>
      read_header E s (frames E) r (block_height h - 1) = Inr p \<and>
      get_target E s r (block_height h div 2016 - 1) = Inr tg \<and>
      verify_header E h (snd (hash_header E p)) tg = Inl e2
      \<longrightarrow> can_connect E s r (Dict h) ch = Inr False)"
proof (intro conjI)
  show "can_connect E s r a ch = Inl e \<longleftrightarrow>
      (a = PyNone \<and> e = TypeError) \<or>
      (a = NoHeightKey \<and> e = KeyError) \<or>
      (a = NoneHeight \<and> ch \<and> e = TypeError) \<or>
      (\<exists>h. a = Dict h \<and> \<not> (ch \<and> height (objs s r) \<noteq> block_height h - 1) \<and>
         (if block_height h = 0 then fst (hash_header E (Some h)) = Inl e
          else (\<exists>p ph. read_header E s (frames E) r (block_height h - 1) = Inr p \<and>
                  fst (hash_header E p) = Inr ph \<and> prev_block_hash h = Some ph) \<and>
               get_target E s r (block_height h div 2016 - 1) = Inl e))"
  proof (cases a)
    case (Dict hdr)
    then show ?thesis
      by (auto simp: can_connect_def Let_def ebind_def split: if_splits sum.splits prod.splits)
  qed (auto simp: can_connect_def)
next
  show "block_height h \<noteq> 0 \<and>
      (read_header E s (frames E) r (block_height h - 1) = Inl e1 \<or>
       (\<exists>p. read_header E s (frames E) r (block_height h - 1) = Inr p \<and>
            fst (hash_header E p) = Inl e1))
      \<longrightarrow> can_connect E s r (Dict h) ch = Inr False"
    by (auto simp: can_connect_def Let_def ebind_def split: if_splits sum.splits prod.splits)
next
  show "block_height h \<noteq> 0 \<and>
      read_header E s (frames E) r (block_height h - 1) = Inr p \<and>
      get_target E s r (block_height h div 2016 - 1) = Inr tg \<and>
      verify_header E h (snd (hash_header E p)) tg = Inl e2
      \<longrightarrow> can_connect E s r (Dict h) ch = Inr False"
    by (auto simp: can_connect_def Let_def ebind_def split: if_splits sum.splits prod.splits)
qed

lemma can_connect_no_file:
  "read_header env0 (ex_state\<lparr>files := Map.empty\<rparr>) (frames env0) 10
     (block_height (ex_header 9 0 0 1) - 1) = Inl UnboundLocalError"
proof -
  have "read_header env0 (ex_state\<lparr>files := Map.empty\<rparr>) (Suc 999) 10 0 = Inl UnboundLocalError"
    unfolding read_header.simps by (simp add: ex_state_def seg_def height_def Let_def)
  then show ?thesis by (simp add: env0_simps ex_header_def)
qed

lemma bfh_zeros_append:
  "bfh (replicate (2 * n) (CHR ''0'') @ s) = ebind (bfh s) (\<lambda>bs. Inr (replicate n 0 @ bs))"
  by (induction n) (auto simp: ebind_def split: sum.splits)

lemma str_to_hash_one: "str_to_hash (Some one_hash) = Inr (1 # replicate 31 0)"
proof -
  have "hexval (CHR ''1'') = Some 1" by code_simp
  then have "bfh ''01'' = Inr [1]" by (simp add: ebind_def)
  then have "bfh one_hash = Inr (replicate 31 0 @ [1])"
    using bfh_zeros_append [of 31 "''01''"] by (simp add: one_hash_def ebind_def)
  then show ?thesis by (simp add: str_to_hash_def ebind_def)
qed

lemma hash_to_str_one: "hash_to_str (1 # replicate 31 0) = one_hash"
proof -
  have "hexdigit 1 = CHR ''1''" by code_simp
  then show ?thesis
    using bh2u_zeros [of 31]
    by (simp add: hash_to_str_def one_hash_def bh2u_def)
qed

lemma ex_read0: "read_header env0 ex_state (frames env0) 10 0 = Inr (Some (ex_header 1 0 0 0))"
proof -
  have o: "objs ex_state 10 = seg 0 None 2" by (simp add: ex_state_def)
  have f: "files ex_state (path_of (objs ex_state 10)) = Some root_file"
    by (simp add: o seg_def path_of_def) (simp add: ex_state_def)
  show ?thesis
    using read_header_own [of 1000 ex_state 10 0 root_file env0] f
      deserialize_ex_record [of "[]" 1 0 0 "ex_record 2 0 0 @ ex_record 3 0 0" 0]
    by (simp add: o seg_def height_def ebind_def root_file_def env0_simps)
qed

lemma hash_header_ex:
  "hash_header env0 (Some (ex_header 1 0 0 0)) = (Inr one_hash, Some (ex_header 1 0 0 0))"
proof -
  have "serialize_header env0 (ex_header 1 0 0 0) = Inr (ex_record 1 0 0)"
    by (rule serialize_ex_header) simp_all
  moreover have "prev_block_hash (ex_header 1 0 0 0) = Some zero_hash" by (simp add: ex_header_def)
  ultimately show ?thesis
    by (simp add: hash_header_def Let_def ebind_def env0_simps hash_to_str_one)
qed

lemma verify_bad_bits:
  "verify_header env0 ((ex_header 9 0 0 1)\<lparr>prev_block_hash := Some one_hash\<rparr>)
     (Some (ex_header 1 0 0 0)) MAX_TARGET = Inl BitsFirstPart"
proof -
  let ?h = "(ex_header 9 0 0 1)\<lparr>prev_block_hash := Some one_hash\<rparr>"
  have ser: "serialize_header env0 ?h =
      Inr (le_bytes 4 9 @ (1 # replicate 31 0) @ replicate 32 0 @ replicate 32 0 @ le_bytes 4 0
           @ le_bytes 4 0 @ replicate 32 0 @ ser_char_vector [])"
    by (simp add: serialize_header_def ex_header_def env0_simps pack_i_def pack_I_def
        str_to_hash_zero str_to_hash_one ebind_def)
  have b: "bits_to_target (bits ?h) = Inl BitsFirstPart"
    by (simp add: ex_header_def bits_to_target_def)
  have p: "prev_block_hash ?h = Some one_hash" by simp
  show ?thesis
    unfolding verify_header_def hash_header_ex fst_conv sha256_header_def ser b p
    by (simp add: ebind_def)
qed

lemma can_connect_bad_bits:
  "read_header env0 ex_state (frames env0) 10
     (block_height ((ex_header 9 0 0 1)\<lparr>prev_block_hash := Some one_hash\<rparr>) - 1)
     = Inr (Some (ex_header 1 0 0 0))"
  "get_target env0 ex_state 10
     (block_height ((ex_header 9 0 0 1)\<lparr>prev_block_hash := Some one_hash\<rparr>) div 2016 - 1)
     = Inr MAX_TARGET"
  "verify_header env0 ((ex_header 9 0 0 1)\<lparr>prev_block_hash := Some one_hash\<rparr>)
     (snd (hash_header env0 (Some (ex_header 1 0 0 0)))) MAX_TARGET = Inl BitsFirstPart"
proof -
  have h: "block_height ((ex_header 9 0 0 1)\<lparr>prev_block_hash := Some one_hash\<rparr>) = 1"
    by (simp add: ex_header_def)
  show "read_header env0 ex_state (frames env0) 10
     (block_height ((ex_header 9 0 0 1)\<lparr>prev_block_hash := Some one_hash\<rparr>) - 1)
     = Inr (Some (ex_header 1 0 0 0))"
    unfolding h using ex_read0 by simp
  show "get_target env0 ex_state 10
     (block_height ((ex_header 9 0 0 1)\<lparr>prev_block_hash := Some one_hash\<rparr>) div 2016 - 1)
     = Inr MAX_TARGET"
    unfolding h by (simp add: get_target_def env0_simps)
  show "verify_header env0 ((ex_header 9 0 0 1)\<lparr>prev_block_hash := Some one_hash\<rparr>)
     (snd (hash_header env0 (Some (ex_header 1 0 0 0)))) MAX_TARGET = Inl BitsFirstPart"
    unfolding hash_header_ex snd_conv by (rule verify_bad_bits)
qed

lemma ex_read2015: "read_header env0 ex_state (frames env0) 10 2015 = Inr None"
  unfolding env0_simps
  by (rule read_header_beyond) (simp_all add: ex_state_def seg_def height_def)

lemma hash_header_bad_version:
  "fst (hash_header env0 (Some (ex_header (2 ^ 31) 0 0 0))) = Inl StructError"
  by (simp add: hash_header_def Let_def ex_header_def serialize_header_def pack_i_def ebind_def)

text \<open>
  The amended claim C9 at concrete inputs: the TypeError for \<open>None\<close>, the
  AttributeError of \<open>get_target\<close> and the struct.error of hashing a header of height 0
  whose version does not fit leave \<open>can_connect\<close>; with the file missing the lookup
  raises, and with \<open>bits\<close> out of range \<open>verify_header\<close> raises, and the result is
  \<open>False\<close> both times.
\<close>

theorem can_connect_exceptions_witness:
  "can_connect env0 ex_state 10 PyNone False = Inl TypeError \<and>
   can_connect env0 ex_state 10 (Dict (ex_header 9 0 0 2016)) False = Inl AttributeError \<and>
   can_connect env0 ex_state 10 (Dict (ex_header (2 ^ 31) 0 0 0)) False = Inl StructError \<and>
   can_connect env0 (ex_state\<lparr>files := Map.empty\<rparr>) 10 (Dict (ex_header 9 0 0 1)) False
     = Inr False \<and>
   can_connect env0 ex_state 10 (Dict ((ex_header 9 0 0 1)\<lparr>prev_block_hash := Some one_hash\<rparr>))
     False = Inr False"
proof -
  let ?hv = "(ex_header 9 0 0 1)\<lparr>prev_block_hash := Some one_hash\<rparr>"
  have h: "block_height (ex_header 9 0 0 2016) = 2016" "block_height (ex_header 9 0 0 1) \<noteq> 0"
    "block_height ?hv \<noteq> 0" "block_height (ex_header (2 ^ 31) 0 0 0) = 0"
    "prev_block_hash (ex_header 9 0 0 2016) = Some zero_hash"
    by (simp_all add: ex_header_def)
  have 1: "can_connect env0 ex_state 10 PyNone False = Inl TypeError"
    using can_connect_exceptions [where E = env0 and s = ex_state and r = 10 and a = PyNone
        and ch = False and e = TypeError]
    by simp
  have "read_header env0 ex_state (frames env0) 10 (block_height (ex_header 9 0 0 2016) - 1) = Inr None
      \<and> fst (hash_header env0 None) = Inr zero_hash
      \<and> prev_block_hash (ex_header 9 0 0 2016) = Some zero_hash"
    using ex_read2015 by (simp add: h hash_header_None zero_hash_def)
  then have 2: "can_connect env0 ex_state 10 (Dict (ex_header 9 0 0 2016)) False = Inl AttributeError"
    using can_connect_exceptions [where E = env0 and s = ex_state and r = 10
        and a = "Dict (ex_header 9 0 0 2016)" and ch = False and e = AttributeError]
      can_connect_ex(2) h(1)
    by auto
  have 3: "can_connect env0 ex_state 10 (Dict (ex_header (2 ^ 31) 0 0 0)) False = Inl StructError"
    using can_connect_exceptions [where E = env0 and s = ex_state and r = 10
        and a = "Dict (ex_header (2 ^ 31) 0 0 0)" and ch = False and e = StructError]
      hash_header_bad_version h(4)
    by auto
  have 4: "can_connect env0 (ex_state\<lparr>files := Map.empty\<rparr>) 10 (Dict (ex_header 9 0 0 1)) False
      = Inr False"
    using can_connect_exceptions [where E = env0 and s = "ex_state\<lparr>files := Map.empty\<rparr>"
        and r = 10 and h = "ex_header 9 0 0 1" and ch = False and ?e1.0 = UnboundLocalError]
      can_connect_no_file h(2) by blast
  have 5: "can_connect env0 ex_state 10 (Dict ?hv) False = Inr False"
    using can_connect_exceptions [where E = env0 and s = ex_state and r = 10 and h = ?hv
        and ch = False and p = "Some (ex_header 1 0 0 0)" and tg = MAX_TARGET
        and ?e2.0 = BitsFirstPart]
      can_connect_bad_bits h(3) by blast
  from 1 2 3 4 5 show ?thesis by simp
qed

text \<open>
  \<open>None\<close> is a header the module itself passes: for a fork file of one record
  \<open>update_size\<close> gives size 0, \<open>read_header\<close> at the checkpoint returns \<open>None\<close>, and
  the test of \<open>read_blockchains\<close> raises the TypeError of line 364.
\<close>

lemma one_record_fork_size:
  "size_c (objs (update_size one_record_fork 11) 11) = 0"
proof -
  have f: "files one_record_fork (path_of (objs one_record_fork 11)) = Some (ex_record 4 0 0)"
    by (simp add: one_record_fork_def seg_def path_of_def)
  show ?thesis
    using tiny_update_size [OF tiny_file_record, of 4 0 0]
    by (simp add: f update_size_def upd_obj_def Let_def)
qed

lemma fork_connects_raises: "fork_connects env0 one_record_fork 11 = Inl TypeError"
proof -
  have o: "objs one_record_fork 11 = seg 1 (Some 0) 0" by (simp add: one_record_fork_def)
  have r: "read_header env0 one_record_fork (frames env0) 11 1 = Inr None"
    unfolding env0_simps
    by (rule read_header_beyond) (simp_all add: o seg_def height_def)
  have p: "parent one_record_fork (seg 1 (Some 0) 0) = Inr 10"
    by (simp add: parent_def seg_def one_record_fork_def)
  have c: "checkpoint (seg 1 (Some 0) 0) = 1" by (simp add: seg_def)
  show ?thesis
    unfolding fork_connects_def o c r p by (simp add: ebind_def can_connect_def)
qed

end
